theory Spec2Isabelle
  imports Complex_Main "HOL-Library.Sublist"
begin

section \<open>JavaScript strings\<close>

text \<open>
  A JavaScript string is a sequence of code units. The model writes it as a \<open>string\<close>;
  a \<open>char\<close> stands for a code unit below 256 (ASCII and Latin-1), which covers every
  literal the plugin compares against. \<open>length\<close> is the \<open>.length\<close> of the source,
  \<open>take n\<close> is \<open>slice(0, n)\<close> and \<open>drop n\<close> is \<open>slice(n)\<close>.
\<close>

definition startsWith :: "string \<Rightarrow> string \<Rightarrow> bool" where
  "startsWith s p = prefix p s"

definition endsWith :: "string \<Rightarrow> string \<Rightarrow> bool" where
  "endsWith s p = prefix (rev p) (rev s)"

definition is_upper_unit :: "char \<Rightarrow> bool" where
  \<comment> \<open>the code units below 256 that \<open>toLowerCase\<close> changes: A-Z and the Latin-1 capitals\<close>
  "is_upper_unit c =
     (let n = (of_char c :: nat)
      in (65 \<le> n \<and> n \<le> 90) \<or> (192 \<le> n \<and> n \<le> 222 \<and> n \<noteq> 215))"

definition lower_unit :: "char \<Rightarrow> char" where
  "lower_unit c = (if is_upper_unit c then char_of (of_char c + (32::nat)) else c)"

definition toLowerCase :: "string \<Rightarrow> string" where
  "toLowerCase s = map lower_unit s"

fun str_includes :: "string \<Rightarrow> string \<Rightarrow> bool" where
  \<comment> \<open>\<open>s.includes(sub)\<close>: the search runs over every start position of \<open>s\<close>\<close>
  "str_includes [] sub = (sub = [])"
| "str_includes (c # cs) sub = (startsWith (c # cs) sub \<or> str_includes cs sub)"

definition is_js_space :: "char \<Rightarrow> bool" where
  \<comment> \<open>white space and line terminators of ECMAScript among the code units below 256:
      TAB, LF, VT, FF, CR, SPACE, NO-BREAK SPACE\<close>
  "is_js_space c = ((of_char c :: nat) \<in> {9, 10, 11, 12, 13, 32, 160})"

definition trim :: "string \<Rightarrow> string" where
  "trim s = rev (dropWhile is_js_space (rev (dropWhile is_js_space s)))"

definition is_digit :: "char \<Rightarrow> bool" where
  "is_digit c = (let n = (of_char c :: nat) in 48 \<le> n \<and> n \<le> 57)"

definition digit_value :: "char \<Rightarrow> int" where
  "digit_value c = int (of_char c) - 48"

definition digits_value :: "string \<Rightarrow> int" where
  \<comment> \<open>the integer that a run of decimal digits denotes\<close>
  "digits_value ds = foldl (\<lambda>acc c. 10 * acc + digit_value c) 0 ds"

text \<open>
  The numbers of the plugin's configuration are integers held as doubles. \<open>Num n\<close> is
  the double with the integer value \<open>n\<close> (minus zero is \<open>Num 0\<close>: the source only
  compares it with zero).
\<close>

datatype js_number = NaN | Num int | Infinity | NegInfinity

definition js_negate :: "js_number \<Rightarrow> js_number" where
  "js_negate x =
     (case x of NaN \<Rightarrow> NaN | Num n \<Rightarrow> Num (- n) | Infinity \<Rightarrow> NegInfinity
      | NegInfinity \<Rightarrow> Infinity)"

function bit_length :: "int \<Rightarrow> nat" where
  "bit_length n = (if n \<le> 0 then 0 else Suc (bit_length (n div 2)))"
  by pat_completeness auto
termination
  by (relation "measure nat") auto

declare bit_length.simps [simp del]

definition round_magnitude :: "int \<Rightarrow> js_number" where
  \<comment> \<open>the Number value of an integer that is not negative: itself below \<open>2^53\<close>,
      otherwise rounded to 53 significant bits, to nearest and to even on a tie, and
      Infinity when the rounded value reaches \<open>2^1024\<close>\<close>
  "round_magnitude n =
     (if n < 2 ^ 53 then Num n
      else let e = bit_length n - 53;
               q = n div 2 ^ e;
               r = n mod 2 ^ e;
               half = 2 ^ (e - 1);
               m = (if half < r \<or> (r = half \<and> odd q) then q + 1 else q);
               v = m * 2 ^ e
           in if 2 ^ 1024 \<le> v then Infinity else Num v)"

definition number_value :: "int \<Rightarrow> js_number" where
  \<comment> \<open>the Number value of an integer; rounding is the same on both sides of zero\<close>
  "number_value i = (if i < 0 then js_negate (round_magnitude (- i)) else round_magnitude i)"

definition js_positive :: "js_number \<Rightarrow> bool" where
  \<comment> \<open>\<open>!Number.isNaN(x) && x > 0\<close>\<close>
  "js_positive x =
     (case x of NaN \<Rightarrow> False | Num n \<Rightarrow> 0 < n | Infinity \<Rightarrow> True | NegInfinity \<Rightarrow> False)"

definition parseInt10 :: "string \<Rightarrow> js_number" where
  \<comment> \<open>\<open>parseInt(s, 10)\<close>: leading white space is skipped, one sign is read, the longest
      run of decimal digits that follows is the value, whatever comes after it, and an
      empty run is NaN. The result is the Number value of the signed integer. (The
      language lets an engine zero the digits after the twentieth; the model reads all
      of them, as the engines that run the plugin do.)\<close>
  "parseInt10 s =
     (let S = dropWhile is_js_space s;
          negative = (case S of c # _ \<Rightarrow> c = CHR ''-'' | [] \<Rightarrow> False);
          S' = (case S of c # r \<Rightarrow> if c = CHR ''+'' \<or> c = CHR ''-'' then r else S | [] \<Rightarrow> S);
          Z = takeWhile is_digit S'
      in if Z = [] then NaN
         else number_value ((if negative then - 1 else 1) * digits_value Z))"

section \<open>Configuration (typescript/utils/config.ts, typescript/types/index.ts)\<close>

record GatewayConfig =
  apiKey :: string
  baseUrl :: string
  smallModel :: string
  largeModel :: string
  embeddingModel :: string
  embeddingDimensions :: js_number
  imageModel :: string
  timeoutMs :: js_number

text \<open>\<open>DEFAULT_CONFIG\<close> has every field but the API key.\<close>

definition DEFAULT_baseUrl :: string where "DEFAULT_baseUrl = ''https://ai-gateway.vercel.sh/v1''"
definition DEFAULT_smallModel :: string where "DEFAULT_smallModel = ''gpt-5-mini''"
definition DEFAULT_largeModel :: string where "DEFAULT_largeModel = ''gpt-5''"
definition DEFAULT_embeddingModel :: string where "DEFAULT_embeddingModel = ''text-embedding-3-small''"
definition DEFAULT_embeddingDimensions :: js_number where "DEFAULT_embeddingDimensions = Num 1536"
definition DEFAULT_imageModel :: string where "DEFAULT_imageModel = ''dall-e-3''"
definition DEFAULT_timeoutMs :: js_number where "DEFAULT_timeoutMs = Num 60000"

text \<open>
  The host runtime answers \<open>runtime.getSetting(key)\<close>; \<open>None\<close> is \<open>null\<close>. The process
  environment is a second lookup; \<open>None\<close> is \<open>undefined\<close> (also when there is no
  \<open>process\<close> at all). Setting values are strings here, as \<open>String(value)\<close> makes them.
\<close>

record IAgentRuntime =
  runtime_getSetting :: "string \<Rightarrow> string option"

type_synonym process_env = "string \<Rightarrow> string option"

definition getEnvValue :: "process_env \<Rightarrow> string \<Rightarrow> string option" where
  "getEnvValue env key = env key"

definition getSetting :: "process_env \<Rightarrow> IAgentRuntime option \<Rightarrow> string \<Rightarrow> string option" where
  "getSetting env runtime key =
     (case runtime of
        Some r \<Rightarrow>
          (case runtime_getSetting r key of
             Some v \<Rightarrow> if v \<noteq> [] then Some v else getEnvValue env key
           | None \<Rightarrow> getEnvValue env key)
      | None \<Rightarrow> getEnvValue env key)"

definition or_else :: "string option \<Rightarrow> string option \<Rightarrow> string option" where
  \<comment> \<open>\<open>a || b\<close> on values that are strings or undefined: the empty string is falsy\<close>
  "or_else a b = (case a of Some v \<Rightarrow> if v \<noteq> [] then Some v else b | None \<Rightarrow> b)"

definition or_default :: "string option \<Rightarrow> string \<Rightarrow> string" where
  "or_default a d = (case a of Some v \<Rightarrow> if v \<noteq> [] then v else d | None \<Rightarrow> d)"

definition is_set :: "string option \<Rightarrow> bool" where
  \<comment> \<open>truthiness of a value that is a string, null or undefined\<close>
  "is_set v = (case v of None \<Rightarrow> False | Some s \<Rightarrow> s \<noteq> [])"

datatype config_error = MissingApiKey

definition getApiKey :: "process_env \<Rightarrow> IAgentRuntime option \<Rightarrow> config_error + string" where
  "getApiKey env runtime =
     (case or_else (getSetting env runtime ''AI_GATEWAY_API_KEY'')
             (or_else (getSetting env runtime ''AIGATEWAY_API_KEY'')
                      (getSetting env runtime ''VERCEL_OIDC_TOKEN'')) of
        Some k \<Rightarrow> if k \<noteq> [] then Inr k else Inl MissingApiKey
      | None \<Rightarrow> Inl MissingApiKey)"

definition getBaseUrl :: "process_env \<Rightarrow> IAgentRuntime option \<Rightarrow> string" where
  "getBaseUrl env runtime = or_default (getSetting env runtime ''AI_GATEWAY_BASE_URL'') DEFAULT_baseUrl"

definition getSmallModel :: "process_env \<Rightarrow> IAgentRuntime option \<Rightarrow> string" where
  "getSmallModel env runtime =
     or_default (or_else (getSetting env runtime ''AI_GATEWAY_SMALL_MODEL'')
                         (getSetting env runtime ''SMALL_MODEL'')) DEFAULT_smallModel"

definition getLargeModel :: "process_env \<Rightarrow> IAgentRuntime option \<Rightarrow> string" where
  "getLargeModel env runtime =
     or_default (or_else (getSetting env runtime ''AI_GATEWAY_LARGE_MODEL'')
                         (getSetting env runtime ''LARGE_MODEL'')) DEFAULT_largeModel"

definition getEmbeddingModel :: "process_env \<Rightarrow> IAgentRuntime option \<Rightarrow> string" where
  "getEmbeddingModel env runtime =
     or_default (getSetting env runtime ''AI_GATEWAY_EMBEDDING_MODEL'') DEFAULT_embeddingModel"

definition positive_or :: "string option \<Rightarrow> js_number \<Rightarrow> js_number" where
  \<comment> \<open>the body shared by \<open>getEmbeddingDimensions\<close> and \<open>getTimeoutMs\<close>:
      \<open>if (v) { parsed = parseInt(v, 10); if (!isNaN(parsed) && parsed > 0) return parsed } return d\<close>\<close>
  "positive_or v d =
     (case v of
        None \<Rightarrow> d
      | Some s \<Rightarrow>
          if s = [] then d
          else (let parsed = parseInt10 s
                in if js_positive parsed then parsed else d))"

definition getEmbeddingDimensions :: "process_env \<Rightarrow> IAgentRuntime option \<Rightarrow> js_number" where
  "getEmbeddingDimensions env runtime =
     positive_or (getSetting env runtime ''AI_GATEWAY_EMBEDDING_DIMENSIONS'') DEFAULT_embeddingDimensions"

definition getImageModel :: "process_env \<Rightarrow> IAgentRuntime option \<Rightarrow> string" where
  "getImageModel env runtime =
     or_default (getSetting env runtime ''AI_GATEWAY_IMAGE_MODEL'') DEFAULT_imageModel"

definition getTimeoutMs :: "process_env \<Rightarrow> IAgentRuntime option \<Rightarrow> js_number" where
  "getTimeoutMs env runtime =
     positive_or (getSetting env runtime ''AI_GATEWAY_TIMEOUT_MS'') DEFAULT_timeoutMs"

definition buildConfig :: "process_env \<Rightarrow> IAgentRuntime option \<Rightarrow> config_error + GatewayConfig" where
  "buildConfig env runtime =
     (case getApiKey env runtime of
        Inl e \<Rightarrow> Inl e
      | Inr k \<Rightarrow>
          Inr \<lparr> apiKey = k,
                baseUrl = getBaseUrl env runtime,
                smallModel = getSmallModel env runtime,
                largeModel = getLargeModel env runtime,
                embeddingModel = getEmbeddingModel env runtime,
                embeddingDimensions = getEmbeddingDimensions env runtime,
                imageModel = getImageModel env runtime,
                timeoutMs = getTimeoutMs env runtime \<rparr>)"

definition NO_TEMPERATURE_MODELS :: "string list" where
  \<comment> \<open>the Set of the source, in insertion order, which is the order of its iteration\<close>
  "NO_TEMPERATURE_MODELS =
     [''o1'', ''o1-preview'', ''o1-mini'', ''o3'', ''o3-mini'', ''gpt-5'', ''gpt-5-mini'']"

fun no_temp_scan :: "string \<Rightarrow> string list \<Rightarrow> bool" where
  \<comment> \<open>the \<open>for ... of\<close> loop: the first denylist entry found in the id returns false\<close>
  "no_temp_scan modelLower [] = True"
| "no_temp_scan modelLower (noTempModel # rest) =
     (if str_includes modelLower noTempModel then False else no_temp_scan modelLower rest)"

definition modelSupportsTemperature :: "string \<Rightarrow> bool" where
  "modelSupportsTemperature model = no_temp_scan (toLowerCase model) NO_TEMPERATURE_MODELS"

section \<open>Request URL (typescript/providers/client.ts)\<close>

definition strip_trailing_slash :: "string \<Rightarrow> string" where
  \<comment> \<open>\<open>s.replace(/\/$/, "")\<close>: without the \<open>m\<close> flag \<open>$\<close> is the end of the input, and
      the pattern has no \<open>g\<close> flag and no repetition, so one slash at most goes\<close>
  "strip_trailing_slash s = (if endsWith s ''/'' then butlast s else s)"

definition url :: "GatewayConfig \<Rightarrow> string \<Rightarrow> string" where
  "url config endpoint = strip_trailing_slash (baseUrl config) @ endpoint"

section \<open>JSON values as JavaScript sees them\<close>

text \<open>
  \<open>JSON.parse\<close> belongs to the platform, not to the plugin: it is a parameter of the
  model, a function from the text to the parsed value, with \<open>None\<close> where it throws a
  SyntaxError. An object is the list of its entries, each key once. \<open>undefined\<close> is the
  \<open>None\<close> of \<open>json option\<close>.
\<close>

datatype json =
    JNull
  | JBool bool
  | JNumber real
  | JString string
  | JArray "json list"
  | JObject "(string \<times> json) list"

type_synonym json_parse = "string \<Rightarrow> json option"

fun truthy :: "json \<Rightarrow> bool" where
  "truthy JNull = False"
| "truthy (JBool b) = b"
| "truthy (JNumber x) = (x \<noteq> 0)"
| "truthy (JString s) = (s \<noteq> [])"
| "truthy (JArray xs) = True"
| "truthy (JObject kvs) = True"

fun get_member :: "json \<Rightarrow> string \<Rightarrow> json option" where
  \<comment> \<open>\<open>v.name\<close> for a value that is neither null nor undefined and a name that no
      prototype defines (\<open>choices\<close>, \<open>delta\<close>, \<open>content\<close>, \<open>data\<close>, \<open>embedding\<close>, \<open>usage\<close>)\<close>
  "get_member (JObject kvs) name = map_of kvs name"
| "get_member v name = None"

fun get_first :: "json \<Rightarrow> json option" where
  \<comment> \<open>\<open>v[0]\<close> for a value that is neither null nor undefined\<close>
  "get_first (JArray xs) = (case xs of [] \<Rightarrow> None | x # _ \<Rightarrow> Some x)"
| "get_first (JString s) = (case s of [] \<Rightarrow> None | c # _ \<Rightarrow> Some (JString [c]))"
| "get_first (JObject kvs) = map_of kvs ''0''"
| "get_first v = None"

definition opt_member :: "json option \<Rightarrow> string \<Rightarrow> json option" where
  \<comment> \<open>\<open>v?.name\<close>\<close>
  "opt_member v name =
     (case v of None \<Rightarrow> None | Some x \<Rightarrow> if x = JNull then None else get_member x name)"

definition opt_first :: "json option \<Rightarrow> json option" where
  \<comment> \<open>\<open>v?.[0]\<close>\<close>
  "opt_first v = (case v of None \<Rightarrow> None | Some x \<Rightarrow> if x = JNull then None else get_first x)"

datatype js_error = SyntaxError | TypeError

section \<open>Streaming chat completion (typescript/providers/client.ts, streamText)\<close>

definition chunk_content :: "json \<Rightarrow> js_error + json option" where
  \<comment> \<open>\<open>chunk.choices?.[0]?.delta?.content\<close>: the first access is a plain one and throws
      on \<open>null\<close>\<close>
  "chunk_content chunk =
     (if chunk = JNull then Inl TypeError
      else Inr (opt_member (opt_member (opt_first (get_member chunk ''choices'')) ''delta'') ''content''))"

definition try_chunk :: "json_parse \<Rightarrow> string \<Rightarrow> js_error + json option" where
  \<comment> \<open>the body of the \<open>try\<close>: what it throws, or the content to yield when it is truthy\<close>
  "try_chunk parse data =
     (case parse data of
        None \<Rightarrow> Inl SyntaxError
      | Some chunk \<Rightarrow>
          (case chunk_content chunk of
             Inl e \<Rightarrow> Inl e
           | Inr content \<Rightarrow>
               (case content of
                  None \<Rightarrow> Inr None
                | Some c \<Rightarrow> if truthy c then Inr (Some c) else Inr None)))"

datatype line_action = Skip | Yield json | Stop

definition handle_line :: "json_parse \<Rightarrow> string \<Rightarrow> line_action" where
  \<comment> \<open>one turn of \<open>for (const line of lines)\<close>; the empty \<open>catch {}\<close> turns whatever the
      \<open>try\<close> throws into the next line\<close>
  "handle_line parse line =
     (if \<not> startsWith line ''data: '' then Skip
      else let data = drop 6 line
           in if data = ''[DONE]'' then Stop
              else (case try_chunk parse data of
                      Inl e \<Rightarrow> Skip
                    | Inr None \<Rightarrow> Skip
                    | Inr (Some content) \<Rightarrow> Yield content))"

fun process_lines :: "json_parse \<Rightarrow> string list \<Rightarrow> json list \<times> bool" where
  \<comment> \<open>the \<open>for\<close> loop over the complete lines of one read: what it yields, and whether
      it left the generator through \<open>return\<close>\<close>
  "process_lines parse [] = ([], False)"
| "process_lines parse (line # rest) =
     (case handle_line parse line of
        Skip \<Rightarrow> process_lines parse rest
      | Stop \<Rightarrow> ([], True)
      | Yield content \<Rightarrow>
          (case process_lines parse rest of (ys, returned) \<Rightarrow> (content # ys, returned)))"

definition cons_to_first :: "char \<Rightarrow> string list \<Rightarrow> string list" where
  "cons_to_first c lines = (case lines of [] \<Rightarrow> [[c]] | l # ls \<Rightarrow> (c # l) # ls)"

fun split_newline :: "string \<Rightarrow> string list" where
  \<comment> \<open>\<open>s.split("\n")\<close>: one more piece than there are newlines, so never empty\<close>
  "split_newline [] = [[]]"
| "split_newline (c # cs) =
     (if c = CHR 0x0A then [] # split_newline cs else cons_to_first c (split_newline cs))"

text \<open>
  The \<open>while (true)\<close> loop. The response body is the list of the texts that the
  successive \<open>reader.read()\<close> calls deliver, already decoded (the decoder runs with
  \<open>stream: true\<close>, so a character cut by a read boundary comes out whole with the next
  read); after the last one \<open>read\<close> reports \<open>done\<close>. \<open>lines.pop() || ""\<close> is the last
  piece of the split. The result is the sequence of yielded values and the number of
  reads that delivered text.
\<close>

fun read_loop :: "json_parse \<Rightarrow> string \<Rightarrow> string list \<Rightarrow> json list \<times> nat" where
  "read_loop parse buffer [] = ([], 0)"
| "read_loop parse buffer (v # pending) =
     (let lines = split_newline (buffer @ v);
          buffer' = last lines;
          lines' = butlast lines
      in case process_lines parse lines' of
           (ys, True) \<Rightarrow> (ys, 1)
         | (ys, False) \<Rightarrow>
             (case read_loop parse buffer' pending of (zs, n) \<Rightarrow> (ys @ zs, Suc n)))"

text \<open>
  What \<open>fetch\<close> gives \<open>streamText\<close>: a rejection, which the generator lets through, or a
  response. The request body that \<open>streamText\<close> builds does not enter the parsing.
\<close>

datatype stream_error =
    FetchRejected string
  | ApiError int string
  | NoResponseBody

record stream_response =
  ok :: bool
  status :: int
  statusText :: string
  body :: "string list option"

datatype fetch_result = Rejected string | Responded stream_response

definition streamText :: "json_parse \<Rightarrow> fetch_result \<Rightarrow> stream_error + json list" where
  \<comment> \<open>the values a consumer gets by draining the generator, or the error it throws\<close>
  "streamText parse fetched =
     (case fetched of
        Rejected reason \<Rightarrow> Inl (FetchRejected reason)
      | Responded response \<Rightarrow>
          if \<not> ok response then Inl (ApiError (status response) (statusText response))
          else (case body response of
                  None \<Rightarrow> Inl NoResponseBody
                | Some reads \<Rightarrow> Inr (fst (read_loop parse [] reads))))"

text \<open>Two views of a text used to state the properties: its newline-terminated lines
  and what follows the last newline.\<close>

definition complete_lines :: "string \<Rightarrow> string list" where
  "complete_lines s = butlast (split_newline s)"

definition remainder :: "string \<Rightarrow> string" where
  "remainder s = last (split_newline s)"

definition streaming :: "string list \<Rightarrow> fetch_result" where
  \<comment> \<open>a successful response whose body arrives in the given reads\<close>
  "streaming reads = Responded \<lparr> ok = True, status = 200, statusText = ''OK'', body = Some reads \<rparr>"

section \<open>Provider resolution (plugin-gateway index.ts, resolveProvider)\<close>

text \<open>
  \<open>ENV_KEYS\<close> and \<open>ModelProviderName\<close> are declared in the package's \<open>types.ts\<close>, which
  is not among the sources. The table is a parameter: \<open>key_of\<close> is the lookup
  \<open>ENV_KEYS[provider]\<close>, total because the table is a record over every provider name,
  and \<open>key_order\<close> is \<open>Object.keys(ENV_KEYS)\<close>. Provider names are the strings of the
  TypeScript union.
\<close>

type_synonym ModelProviderName = string

record env_keys =
  key_of :: "ModelProviderName \<Rightarrow> string"
  key_order :: "ModelProviderName list"

definition has_key :: "process_env \<Rightarrow> IAgentRuntime \<Rightarrow> string \<Rightarrow> bool" where
  \<comment> \<open>the truth value of \<open>runtime.getSetting(key) || process.env[key]\<close>\<close>
  "has_key env runtime key = (is_set (runtime_getSetting runtime key) \<or> is_set (env key))"

fun first_with_key :: "process_env \<Rightarrow> IAgentRuntime \<Rightarrow> env_keys \<Rightarrow> ModelProviderName list
    \<Rightarrow> ModelProviderName option" where
  \<comment> \<open>the \<open>for (const provider of Object.keys(ENV_KEYS))\<close> loop\<close>
  "first_with_key env runtime ENV_KEYS [] = None"
| "first_with_key env runtime ENV_KEYS (provider # rest) =
     (if has_key env runtime (key_of ENV_KEYS provider) then Some provider
      else first_with_key env runtime ENV_KEYS rest)"

definition resolveProvider :: "process_env \<Rightarrow> env_keys \<Rightarrow> IAgentRuntime \<Rightarrow> ModelProviderName
    \<Rightarrow> ModelProviderName" where
  "resolveProvider env ENV_KEYS runtime preferredProvider =
     (if has_key env runtime (key_of ENV_KEYS preferredProvider) then preferredProvider
      else if has_key env runtime ''AI_GATEWAY_API_KEY'' then ''vercel-gateway''
      else if has_key env runtime ''OPENROUTER_API_KEY'' then ''openrouter''
      else (case first_with_key env runtime ENV_KEYS (key_order ENV_KEYS) of
              Some provider \<Rightarrow> provider
            | None \<Rightarrow> preferredProvider))"

section \<open>The resilient embedding handler (src/utils/config.ts, src/utils/client.ts,
  src/handlers/embedding.ts)\<close>

record AIGatewayConfig =
  ai_apiKey :: string
  ai_baseUrl :: string
  ai_openaiCompatibleUrl :: "string option"
  ai_accountId :: "string option"
  ai_workspace :: "string option"
  ai_smallModel :: string
  ai_largeModel :: string
  ai_embeddingModel :: string
  ai_imageModel :: string

definition getSetting_nullish :: "process_env \<Rightarrow> IAgentRuntime \<Rightarrow> string \<Rightarrow> string option
    \<Rightarrow> string option" where
  \<comment> \<open>\<open>runtime.getSetting(key) ?? process.env[key] ?? defaultValue\<close>: only null and
      undefined fall through, the empty string does not\<close>
  "getSetting_nullish env runtime key defaultValue =
     (case runtime_getSetting runtime key of
        Some v \<Rightarrow> Some v
      | None \<Rightarrow> (case env key of Some v \<Rightarrow> Some v | None \<Rightarrow> defaultValue))"

definition getSetting_default :: "process_env \<Rightarrow> IAgentRuntime \<Rightarrow> string \<Rightarrow> string \<Rightarrow> string" where
  \<comment> \<open>the same lookup with a default, which always gives a string\<close>
  "getSetting_default env runtime key defaultValue =
     (case getSetting_nullish env runtime key (Some defaultValue) of
        Some v \<Rightarrow> v
      | None \<Rightarrow> defaultValue)"

datatype handler_error =
    ApiKeyRequired
  | TrimNotAFunction
  \<comment> \<open>\<open>Error('AI_GATEWAY_API_KEY is required')\<close> from the configuration, and the
      TypeError of \<open>text.trim()\<close> on a text that is not a string\<close>

definition getAIGatewayConfig :: "process_env \<Rightarrow> IAgentRuntime \<Rightarrow> handler_error + AIGatewayConfig" where
  "getAIGatewayConfig env runtime =
     (case getSetting_nullish env runtime ''AI_GATEWAY_API_KEY'' None of
        None \<Rightarrow> Inl ApiKeyRequired
      | Some k \<Rightarrow>
          if k = [] then Inl ApiKeyRequired
          else Inr \<lparr> ai_apiKey = k,
                     ai_baseUrl = getSetting_default env runtime ''AI_GATEWAY_BASE_URL''
                                    ''https://gateway.ai.cloudflare.com/v1'',
                     ai_openaiCompatibleUrl =
                       getSetting_nullish env runtime ''AI_GATEWAY_OPENAI_COMPATIBLE_URL'' None,
                     ai_accountId = getSetting_nullish env runtime ''AI_GATEWAY_ACCOUNT_ID'' None,
                     ai_workspace = getSetting_nullish env runtime ''AI_GATEWAY_WORKSPACE'' None,
                     ai_smallModel = getSetting_default env runtime ''AI_GATEWAY_SMALL_MODEL''
                                    ''@cf/meta/llama-3.1-8b-instruct'',
                     ai_largeModel = getSetting_default env runtime ''AI_GATEWAY_LARGE_MODEL''
                                    ''@cf/meta/llama-3.1-70b-instruct'',
                     ai_embeddingModel = getSetting_default env runtime ''AI_GATEWAY_EMBEDDING_MODEL''
                                    ''@cf/baai/bge-base-en-v1.5'',
                     ai_imageModel = getSetting_default env runtime ''AI_GATEWAY_IMAGE_MODEL''
                                    ''@cf/stabilityai/stable-diffusion-xl-base-1.0'' \<rparr>)"

text \<open>
  The client. \<open>fetch\<close> is the transport: a parameter that maps the request URL to what
  the call does. Either something inside the \<open>try\<close> throws (the call itself, or the
  reading of the body), or there is a response with a status and a body text. The
  client catches everything and answers with a \<open>GatewayResponse\<close>.
\<close>

record http_response =
  http_ok :: bool
  http_status :: int
  http_statusText :: string
  http_text :: string

datatype fetch_outcome = FetchThrows string | Fetched http_response

type_synonym transport = "string \<Rightarrow> fetch_outcome"

datatype request_error =
    RequestFailed int string
  | ParseFailed
  | Thrown string

record GatewayResponse =
  gw_success :: bool
  gw_data :: "json option"
  gw_error :: "request_error option"

definition text_of :: "string option \<Rightarrow> string" where
  \<comment> \<open>an optional string inside a template literal, read only where it is set\<close>
  "text_of v = (case v of None \<Rightarrow> ''undefined'' | Some s \<Rightarrow> s)"

definition request_url :: "AIGatewayConfig \<Rightarrow> string \<Rightarrow> bool \<Rightarrow> string" where
  "request_url config endpoint useOpenAICompatible =
     (if useOpenAICompatible \<and> is_set (ai_openaiCompatibleUrl config)
      then text_of (ai_openaiCompatibleUrl config) @ endpoint
      else if is_set (ai_accountId config) \<and> is_set (ai_workspace config)
      then ai_baseUrl config @ ''/'' @ text_of (ai_accountId config) @ ''/''
             @ text_of (ai_workspace config) @ endpoint
      else ai_baseUrl config @ endpoint)"

definition makeRequest :: "json_parse \<Rightarrow> transport \<Rightarrow> AIGatewayConfig \<Rightarrow> string \<Rightarrow> bool
    \<Rightarrow> GatewayResponse" where
  "makeRequest parse fetch config endpoint useOpenAICompatible =
     (case fetch (request_url config endpoint useOpenAICompatible) of
        FetchThrows message \<Rightarrow> \<lparr> gw_success = False, gw_data = None, gw_error = Some (Thrown message) \<rparr>
      | Fetched response \<Rightarrow>
          if \<not> http_ok response
          then \<lparr> gw_success = False, gw_data = None,
                 gw_error = Some (RequestFailed (http_status response) (http_statusText response)) \<rparr>
          else (case parse (http_text response) of
                  None \<Rightarrow> \<lparr> gw_success = False, gw_data = None, gw_error = Some ParseFailed \<rparr>
                | Some d \<Rightarrow> \<lparr> gw_success = True, gw_data = Some d, gw_error = None \<rparr>))"

definition makeOpenAIRequest :: "json_parse \<Rightarrow> transport \<Rightarrow> AIGatewayConfig \<Rightarrow> string
    \<Rightarrow> GatewayResponse" where
  "makeOpenAIRequest parse fetch config endpoint = makeRequest parse fetch config endpoint True"

text \<open>
  The handler's argument is declared \<open>TextEmbeddingParams | string | null\<close>. At run time
  it is \<open>null\<close>, a string, an object, or something else (\<open>undefined\<close>, a number, a
  boolean). The \<open>text\<close> of an object is any value or is missing; it is a value of
  data here (a string, a number, a boolean, \<open>null\<close>, an array or an object of such),
  none of which but the string has a \<open>trim\<close> method. The logger and
  \<open>runtime.emitEvent\<close> belong to the host and are taken to return.
\<close>

datatype resilient_input =
    ParamsNull
  | ParamsString string
  | ParamsObject "json option"
  | ParamsOther

definition fallback_vector :: "real \<Rightarrow> json list" where
  \<comment> \<open>\<open>v = Array(768).fill(0); v[0] = marker\<close>\<close>
  "fallback_vector marker = (replicate 768 (JNumber 0))[0 := JNumber marker]"

definition chosen_text :: "resilient_input \<Rightarrow> json option" where
  \<comment> \<open>\<open>text\<close> after the shape test: the string itself, or the \<open>text\<close> of an object when
      it is truthy, whatever its type; \<open>None\<close> is the branch "Invalid input format"\<close>
  "chosen_text params =
     (case params of
        ParamsNull \<Rightarrow> None
      | ParamsString s \<Rightarrow> Some (JString s)
      | ParamsObject t \<Rightarrow>
          (case t of None \<Rightarrow> None | Some v \<Rightarrow> if truthy v then Some v else None)
      | ParamsOther \<Rightarrow> None)"

definition response_embedding :: "json \<Rightarrow> json list option" where
  \<comment> \<open>\<open>response.data.data?.[0]?.embedding\<close> when it is an array\<close>
  "response_embedding d =
     (case opt_member (opt_first (get_member d ''data'')) ''embedding'' of
        Some (JArray xs) \<Rightarrow> Some xs
      | _ \<Rightarrow> None)"

definition usage_event :: "json \<Rightarrow> json option" where
  \<comment> \<open>the \<open>usage\<close> that a MODEL_USED event reports, when the response has a truthy one\<close>
  "usage_event d =
     (case get_member d ''usage'' of
        Some u \<Rightarrow> if truthy u then Some u else None
      | None \<Rightarrow> None)"

definition handleTextEmbedding_resilient :: "json_parse \<Rightarrow> transport \<Rightarrow> process_env
    \<Rightarrow> IAgentRuntime \<Rightarrow> resilient_input \<Rightarrow> handler_error + json list \<times> json option" where
  \<comment> \<open>the returned vector, with the usage of the event emitted on the way;
      \<open>!response.success || !response.data\<close> is the first three tests on the response\<close>
  "handleTextEmbedding_resilient parse fetch env runtime params =
     (case getAIGatewayConfig env runtime of
        Inl e \<Rightarrow> Inl e
      | Inr config \<Rightarrow>
          if params = ParamsNull then Inr (fallback_vector 0.1, None)
          else (case chosen_text params of
                  None \<Rightarrow> Inr (fallback_vector 0.2, None)
                | Some (JString text) \<Rightarrow>
                    if trim text = [] then Inr (fallback_vector 0.3, None)
                    else (let response = makeOpenAIRequest parse fetch config ''/embeddings''
                          in if \<not> gw_success response then Inr (fallback_vector 0.4, None)
                             else (case gw_data response of
                                     None \<Rightarrow> Inr (fallback_vector 0.4, None)
                                   | Some d \<Rightarrow>
                                       if \<not> truthy d then Inr (fallback_vector 0.4, None)
                                       else (case response_embedding d of
                                               None \<Rightarrow> Inr (fallback_vector 0.5, None)
                                             | Some embedding \<Rightarrow>
                                                 Inr (embedding, usage_event d))))
                | Some other \<Rightarrow> Inl TrimNotAFunction))"

section \<open>Structured objects (typescript/providers/client.ts, generateObject)\<close>

datatype GatewayError = GatewayError string
  \<comment> \<open>the message; the status code plays no part in what follows\<close>

definition strip_fences :: "string \<Rightarrow> string" where
  \<comment> \<open>\<open>cleaned\<close> after the three tests; \<open>slice(0, -3)\<close> drops the last three code units\<close>
  "strip_fences response =
     (let cleaned0 = trim response;
          cleaned1 = (if startsWith cleaned0 ''```json'' then drop 7 cleaned0 else cleaned0);
          cleaned2 = (if startsWith cleaned1 ''```'' then drop 3 cleaned1 else cleaned1);
          cleaned3 = (if endsWith cleaned2 ''```'' then take (length cleaned2 - 3) cleaned2
                      else cleaned2)
      in cleaned3)"

definition generateObject :: "json_parse \<Rightarrow> GatewayError + string \<Rightarrow> GatewayError + json" where
  \<comment> \<open>the second argument is what \<open>await this.generateText(...)\<close> gives: the error it
      throws, which passes through, or the text of the model's answer\<close>
  "generateObject parse generated =
     (case generated of
        Inl e \<Rightarrow> Inl e
      | Inr response \<Rightarrow>
          (let cleaned = strip_fences response
           in case parse (trim cleaned) of
                Some object \<Rightarrow> Inr object
              | None \<Rightarrow> Inl (GatewayError (''Failed to parse JSON response: '' @ cleaned))))"

definition all_space :: "string \<Rightarrow> bool" where
  "all_space w = list_all is_js_space w"

definition fenced :: "string \<Rightarrow> string \<Rightarrow> string \<Rightarrow> string" where
  \<comment> \<open>a text inside a code fence that carries a language tag, with the white space
      \<open>w1\<close> after the opening fence and \<open>w2\<close> before the closing one\<close>
  "fenced w1 t w2 = ''```json'' @ w1 @ t @ w2 @ ''```''"

section \<open>Embedding requests (typescript/models/embedding.ts, handleTextEmbedding)\<close>

record EmbeddingParams =
  ep_text :: string
  ep_model :: string
  ep_dimensions :: js_number

definition truncate_text :: "nat \<Rightarrow> string \<Rightarrow> string" where
  \<comment> \<open>\<open>maxChars = MAX_EMBEDDING_TOKENS * 4; if (text.length > maxChars) text = text.slice(0, maxChars)\<close>\<close>
  "truncate_text MAX_EMBEDDING_TOKENS t =
     (let maxChars = MAX_EMBEDDING_TOKENS * 4
      in if length t > maxChars then take maxChars t else t)"

text \<open>
  The argument of this handler, as its type \<open>TextEmbeddingParams | string | null\<close>
  declares it: the \<open>text\<close> of an object is a string; \<open>None\<close> is an object without it.
\<close>

datatype typed_input =
    InputNull
  | InputString string
  | InputObject "string option"

datatype embedding_failure =
    Config config_error
  | TextUndefined
  | Transport GatewayError

text \<open>
  \<open>MAX_EMBEDDING_TOKENS\<close> comes from the host's core package and is a parameter, as is
  \<open>createEmbedding\<close> of the client, which performs the request. An object without its
  \<open>text\<close> makes \<open>text.length\<close> throw a TypeError.
\<close>

definition handleTextEmbedding :: "nat \<Rightarrow> (GatewayConfig \<Rightarrow> EmbeddingParams \<Rightarrow> GatewayError + real list)
    \<Rightarrow> process_env \<Rightarrow> IAgentRuntime option \<Rightarrow> typed_input
    \<Rightarrow> embedding_failure + real list" where
  "handleTextEmbedding MAX_EMBEDDING_TOKENS createEmbedding env runtime params =
     (case buildConfig env runtime of
        Inl e \<Rightarrow> Inl (Config e)
      | Inr config \<Rightarrow>
          (case (case params of
                   InputNull \<Rightarrow> Some ''test''
                 | InputString s \<Rightarrow> Some s
                 | InputObject t \<Rightarrow> t) of
             None \<Rightarrow> Inl TextUndefined
           | Some t \<Rightarrow>
               (case createEmbedding config
                       \<lparr> ep_text = truncate_text MAX_EMBEDDING_TOKENS t,
                         ep_model = getEmbeddingModel env runtime,
                         ep_dimensions = getEmbeddingDimensions env runtime \<rparr> of
                  Inl e \<Rightarrow> Inl (Transport e)
                | Inr v \<Rightarrow> Inr v)))"

section \<open>Sample inputs\<close>

definition example_config :: "string \<Rightarrow> GatewayConfig" where
  \<comment> \<open>a configuration with the defaults of \<open>DEFAULT_CONFIG\<close> around a given base URL,
      used to evaluate the model on concrete inputs\<close>
  "example_config b =
     \<lparr> apiKey = ''key'', baseUrl = b, smallModel = DEFAULT_smallModel,
       largeModel = DEFAULT_largeModel, embeddingModel = DEFAULT_embeddingModel,
       embeddingDimensions = DEFAULT_embeddingDimensions, imageModel = DEFAULT_imageModel,
       timeoutMs = DEFAULT_timeoutMs \<rparr>"

definition quoted :: "string \<Rightarrow> string" where
  \<comment> \<open>a text between double quotes\<close>
  "quoted s = CHR 0x22 # s @ [CHR 0x22]"

definition delta_text :: "string \<Rightarrow> string" where
  \<comment> \<open>the JSON text of a streamed chunk that carries the content \<open>c\<close>:
      an object with \<open>choices\<close>, holding one choice with a \<open>delta\<close> with that \<open>content\<close>\<close>
  "delta_text c =
     ''{'' @ quoted ''choices'' @ '':[{'' @ quoted ''delta'' @ '':{'' @ quoted ''content'' @ '':''
       @ quoted c @ ''}}]}''"

definition delta_json :: "string \<Rightarrow> json" where
  \<comment> \<open>the value \<open>JSON.parse\<close> returns for \<open>delta_text c\<close>\<close>
  "delta_json c =
     JObject [(''choices'', JArray [JObject [(''delta'', JObject [(''content'', JString c)])]])]"

definition sample_parse :: json_parse where
  \<comment> \<open>\<open>JSON.parse\<close> on the texts of the examples: two chunk texts and the text \<open>null\<close>
      are parsed, every other text of the examples (\<open>{broken\<close>, \<open>[DONE]\<close>) is not JSON\<close>
  "sample_parse s =
     (if s = delta_text ''Hel'' then Some (delta_json ''Hel'')
      else if s = delta_text ''lo'' then Some (delta_json ''lo'')
      else if s = ''null'' then Some JNull
      else None)"

definition data_line :: "string \<Rightarrow> string" where
  \<comment> \<open>a server-sent-events data line with its newline\<close>
  "data_line payload = ''data: '' @ payload @ [CHR 0x0A]"

definition empty_env :: process_env where
  \<comment> \<open>a process environment with no variable set\<close>
  "empty_env key = None"

definition settings_of :: "(string \<times> string) list \<Rightarrow> IAgentRuntime" where
  \<comment> \<open>a runtime whose settings are the listed ones\<close>
  "settings_of kvs = \<lparr> runtime_getSetting = map_of kvs \<rparr>"

definition sample_keys :: env_keys where
  \<comment> \<open>a table in the shape of \<open>ENV_KEYS\<close>, for four providers\<close>
  "sample_keys =
     \<lparr> key_of = (\<lambda>provider.
          if provider = ''openai'' then ''OPENAI_API_KEY''
          else if provider = ''anthropic'' then ''ANTHROPIC_API_KEY''
          else if provider = ''openrouter'' then ''OPENROUTER_API_KEY''
          else ''AI_GATEWAY_API_KEY''),
       key_order = [''openai'', ''anthropic'', ''openrouter'', ''vercel-gateway''] \<rparr>"

definition dead_transport :: transport where
  \<comment> \<open>a transport on which every call throws\<close>
  "dead_transport u = FetchThrows ''connect ECONNREFUSED''"

definition count_embedding :: "GatewayConfig \<Rightarrow> EmbeddingParams \<Rightarrow> GatewayError + real list" where
  \<comment> \<open>a stand-in for \<open>createEmbedding\<close> that answers with the length of the text it is sent\<close>
  "count_embedding config p = Inr [real (length (ep_text p))]"

section \<open>Properties of the request URL\<close>

lemma strip_trailing_slash_snoc: "strip_trailing_slash (b @ ''/'') = b"
  by (simp add: strip_trailing_slash_def endsWith_def)

lemma strip_trailing_slash_id: "\<not> endsWith b ''/'' \<Longrightarrow> strip_trailing_slash b = b"
  by (simp add: strip_trailing_slash_def)

lemma endsWith_slash_snoc: "endsWith b ''/'' \<Longrightarrow> \<exists>a. b = a @ ''/''"
proof -
  assume "endsWith b ''/''"
  then have "b \<noteq> [] \<and> last b = CHR ''/''"
    by (cases "rev b") (auto simp: endsWith_def last_rev [symmetric])
  then have "b = butlast b @ ''/''" by (metis append_butlast_last_id)
  then show ?thesis ..
qed

lemma url_second_slash_stays:
  "url (config\<lparr>baseUrl := b @ ''//''\<rparr>) endpoint = b @ ''/'' @ endpoint"
proof -
  have "b @ ''//'' = (b @ ''/'') @ ''/''" by simp
  then have "strip_trailing_slash (b @ ''//'') = b @ ''/''"
    using strip_trailing_slash_snoc [of "b @ ''/''"] by simp
  then show ?thesis by (simp add: url_def)
qed

text \<open>
  C10. The request URL is the base URL without its last character when that is a
  slash, followed by the endpoint; exactly one slash goes, never two. So a base URL
  \<open>b @ ''/''\<close> gives \<open>b @ endpoint\<close> for every \<open>b\<close>. When \<open>b\<close> has no trailing slash, \<open>b\<close>
  alone gives \<open>b @ endpoint\<close> too, and the two configurations build the same URL for
  every endpoint. When \<open>b\<close> already ends with a slash, the two configurations differ
  by one trailing slash and build different URLs.
\<close>

theorem url_strips_one_trailing_slash:
  "url (config\<lparr>baseUrl := b @ ''/''\<rparr>) endpoint = b @ endpoint
   \<and> (\<not> endsWith b ''/'' \<longrightarrow>
        url (config\<lparr>baseUrl := b\<rparr>) endpoint = b @ endpoint
        \<and> url (config\<lparr>baseUrl := b @ ''/''\<rparr>) endpoint = url (config\<lparr>baseUrl := b\<rparr>) endpoint)
   \<and> (endsWith b ''/'' \<longrightarrow>
        url (config\<lparr>baseUrl := b\<rparr>) endpoint = butlast b @ endpoint
        \<and> url (config\<lparr>baseUrl := b @ ''/''\<rparr>) endpoint \<noteq> url (config\<lparr>baseUrl := b\<rparr>) endpoint)"
proof (intro conjI impI)
  show "url (config\<lparr>baseUrl := b @ ''/''\<rparr>) endpoint = b @ endpoint"
    by (simp add: url_def strip_trailing_slash_snoc)
next
  assume "\<not> endsWith b ''/''"
  then show "url (config\<lparr>baseUrl := b\<rparr>) endpoint = b @ endpoint"
    by (simp add: url_def strip_trailing_slash_id)
next
  assume "\<not> endsWith b ''/''"
  then show "url (config\<lparr>baseUrl := b @ ''/''\<rparr>) endpoint = url (config\<lparr>baseUrl := b\<rparr>) endpoint"
    by (simp add: url_def strip_trailing_slash_snoc strip_trailing_slash_id)
next
  assume "endsWith b ''/''"
  then show "url (config\<lparr>baseUrl := b\<rparr>) endpoint = butlast b @ endpoint"
    by (simp add: url_def strip_trailing_slash_def)
next
  assume e: "endsWith b ''/''"
  then obtain a where a: "b = a @ ''/''" using endsWith_slash_snoc by blast
  have l: "url (config\<lparr>baseUrl := b @ ''/''\<rparr>) endpoint = b @ endpoint"
    by (simp add: url_def strip_trailing_slash_snoc)
  have r: "url (config\<lparr>baseUrl := b\<rparr>) endpoint = a @ endpoint"
    using strip_trailing_slash_snoc [of a] by (simp add: url_def a)
  have "length (b @ endpoint) \<noteq> length (a @ endpoint)" by (simp add: a)
  then have "b @ endpoint \<noteq> a @ endpoint" by metis
  with l r show "url (config\<lparr>baseUrl := b @ ''/''\<rparr>) endpoint \<noteq> url (config\<lparr>baseUrl := b\<rparr>) endpoint"
    by simp
qed

theorem url_strips_one_trailing_slash_witness:
  "url (example_config ''https://ai-gateway.vercel.sh/v1/'') ''/chat/completions''
     = url (example_config ''https://ai-gateway.vercel.sh/v1'') ''/chat/completions''
   \<and> url (example_config ''https://ai-gateway.vercel.sh/v1/'') ''/chat/completions''
     = ''https://ai-gateway.vercel.sh/v1/chat/completions''
   \<and> url (example_config ''h//'') ''/x'' \<noteq> url (example_config ''h/'') ''/x''"
proof -
  let ?c = "example_config ''''"
  let ?b = "''https://ai-gateway.vercel.sh/v1''"
  have c1: "?c\<lparr>baseUrl := ?b\<rparr> = example_config ?b"
    and c2: "?c\<lparr>baseUrl := ?b @ ''/''\<rparr> = example_config ''https://ai-gateway.vercel.sh/v1/''"
    and c3: "?c\<lparr>baseUrl := ''h/''\<rparr> = example_config ''h/''"
    and c4: "?c\<lparr>baseUrl := ''h/'' @ ''/''\<rparr> = example_config ''h//''"
    by (simp_all add: example_config_def)
  have h1: "\<not> endsWith ?b ''/''" by (simp add: endsWith_def)
  have h2: "endsWith ''h/'' ''/''" by (simp add: endsWith_def)
  have v: "?b @ ''/chat/completions'' = ''https://ai-gateway.vercel.sh/v1/chat/completions''"
    by simp
  from url_strips_one_trailing_slash
         [where config = ?c and b = ?b and endpoint = "''/chat/completions''"] h1
  have e1: "url (?c\<lparr>baseUrl := ?b @ ''/''\<rparr>) ''/chat/completions''
            = url (?c\<lparr>baseUrl := ?b\<rparr>) ''/chat/completions''"
    and e2: "url (?c\<lparr>baseUrl := ?b @ ''/''\<rparr>) ''/chat/completions'' = ?b @ ''/chat/completions''"
    by blast+
  from url_strips_one_trailing_slash
         [where config = ?c and b = "''h/''" and endpoint = "''/x''"] h2
  have e3: "url (?c\<lparr>baseUrl := ''h/'' @ ''/''\<rparr>) ''/x'' \<noteq> url (?c\<lparr>baseUrl := ''h/''\<rparr>) ''/x''"
    by blast
  show ?thesis
    using e1 e2 e3 unfolding c1 c2 c3 c4 v by blast
qed

text \<open>
  Two base URLs that differ by one trailing slash, the shorter one ending with a slash
  already: the request URLs differ.
\<close>

theorem url_double_slash_differs:
  "url (example_config ''https://ai-gateway.vercel.sh/v1//'') ''/chat/completions''
     = ''https://ai-gateway.vercel.sh/v1//chat/completions''
   \<and> url (example_config ''https://ai-gateway.vercel.sh/v1/'') ''/chat/completions''
     = ''https://ai-gateway.vercel.sh/v1/chat/completions''
   \<and> url (example_config ''https://ai-gateway.vercel.sh/v1//'') ''/chat/completions''
     \<noteq> url (example_config ''https://ai-gateway.vercel.sh/v1/'') ''/chat/completions''"
  by code_simp

section \<open>Properties of the streaming parser\<close>

lemma split_newline_nonempty: "split_newline s \<noteq> []"
  by (induction s) (auto simp: cons_to_first_def split: list.splits)

lemma butlast_cons_to_first:
  "ls \<noteq> [] \<Longrightarrow> butlast (cons_to_first c ls) = (if butlast ls = [] then [] else cons_to_first c (butlast ls))"
  by (cases ls) (auto simp: cons_to_first_def split: list.splits)

lemma split_newline_append:
  "split_newline (a @ b) = complete_lines a @ split_newline (remainder a @ b)"
proof (induction a)
  case Nil
  then show ?case by (simp add: complete_lines_def remainder_def)
next
  case (Cons c a)
  obtain l ls where sa: "split_newline a = l # ls"
    using split_newline_nonempty [of a] by (cases "split_newline a") auto
  show ?case
  proof (cases "c = CHR 0x0A")
    case True
    then show ?thesis using Cons sa by (simp add: complete_lines_def remainder_def)
  next
    case False
    show ?thesis
    proof (cases ls)
      case Nil
      then show ?thesis using Cons sa False
        by (simp add: complete_lines_def remainder_def cons_to_first_def)
    next
      case (Cons l' ls')
      then show ?thesis using Cons.IH sa False
        by (simp add: complete_lines_def remainder_def cons_to_first_def)
    qed
  qed
qed

lemma remainder_no_newline: "CHR 0x0A \<notin> set (remainder s)"
proof (induction s)
  case Nil
  then show ?case by (simp add: remainder_def)
next
  case (Cons c s)
  obtain l ls where sa: "split_newline s = l # ls"
    using split_newline_nonempty [of s] by (cases "split_newline s") auto
  then show ?case using Cons
    by (cases ls) (auto simp: remainder_def cons_to_first_def)
qed

lemma split_newline_no_newline: "CHR 0x0A \<notin> set s \<Longrightarrow> split_newline s = [s]"
  by (induction s) (auto simp: cons_to_first_def)

lemma complete_lines_append:
  "complete_lines (a @ b) = complete_lines a @ complete_lines (remainder a @ b)"
  using split_newline_append [of a b] split_newline_nonempty [of "remainder a @ b"]
  by (simp add: complete_lines_def butlast_append)

lemma remainder_append: "remainder (a @ b) = remainder (remainder a @ b)"
  using split_newline_append [of a b] split_newline_nonempty [of "remainder a @ b"]
  by (simp add: remainder_def)

lemma process_lines_append:
  "process_lines parse (xs @ ys) =
     (if snd (process_lines parse xs) then process_lines parse xs
      else (fst (process_lines parse xs) @ fst (process_lines parse ys),
            snd (process_lines parse ys)))"
  by (induction xs) (auto split: line_action.splits prod.splits)

lemma read_loop_yields:
  "CHR 0x0A \<notin> set buffer \<Longrightarrow>
   fst (read_loop parse buffer rs) = fst (process_lines parse (complete_lines (buffer @ concat rs)))"
proof (induction rs arbitrary: buffer)
  case Nil
  then show ?case by (simp add: complete_lines_def split_newline_no_newline)
next
  case (Cons r rs)
  have nn: "CHR 0x0A \<notin> set (remainder (buffer @ r))" by (rule remainder_no_newline)
  have cl: "complete_lines (buffer @ r @ concat rs)
            = complete_lines (buffer @ r) @ complete_lines (remainder (buffer @ r) @ concat rs)"
    using complete_lines_append [of "buffer @ r" "concat rs"] by simp
  show ?case
    using Cons.IH [OF nn]
    by (auto simp: cl process_lines_append complete_lines_def [symmetric] remainder_def [symmetric]
             split: prod.splits bool.splits)
qed

lemma streamText_streaming:
  "streamText parse (streaming reads) = Inr (fst (process_lines parse (complete_lines (concat reads))))"
  using read_loop_yields [of "[]" parse reads] by (simp add: streamText_def streaming_def)

lemma streamText_ok_body:
  "ok response \<Longrightarrow> body response = Some reads \<Longrightarrow>
   streamText parse (Responded response) = streamText parse (streaming reads)"
  by (simp add: streamText_def streaming_def)

lemma streamText_failures:
  "streamText parse (Rejected reason) = Inl (FetchRejected reason)"
  "\<not> ok response \<Longrightarrow>
   streamText parse (Responded response) = Inl (ApiError (status response) (statusText response))"
  "ok response \<Longrightarrow> body response = None \<Longrightarrow>
   streamText parse (Responded response) = Inl NoResponseBody"
  by (simp_all add: streamText_def)

lemma split_newline_terminated:
  "CHR 0x0A \<notin> set l \<Longrightarrow> split_newline (l @ [CHR 0x0A]) = [l, []]"
  by (induction l) (auto simp: cons_to_first_def)

lemma aligned_remainder:
  assumes "before = [] \<or> last before = CHR 0x0A"
  shows "remainder before = []"
proof (cases "before = []")
  case True
  then show ?thesis by (simp add: remainder_def)
next
  case False
  with assms have "before = butlast before @ [CHR 0x0A]"
    by (metis append_butlast_last_id)
  then obtain b where b: "before = b @ [CHR 0x0A]" ..
  have "split_newline (remainder b @ [CHR 0x0A]) = [remainder b, []]"
    by (rule split_newline_terminated) (rule remainder_no_newline)
  then show ?thesis
    using remainder_append [of b "[CHR 0x0A]"] by (simp add: b remainder_def)
qed

lemma complete_lines_line:
  assumes "remainder before = []" and "CHR 0x0A \<notin> set l"
  shows "complete_lines (before @ l @ [CHR 0x0A] @ rest)
         = complete_lines before @ [l] @ complete_lines rest"
proof -
  have "complete_lines (before @ l @ [CHR 0x0A] @ rest)
        = complete_lines before @ complete_lines ((l @ [CHR 0x0A]) @ rest)"
    using complete_lines_append [of before "l @ [CHR 0x0A] @ rest"] assms(1) by simp
  also have "complete_lines ((l @ [CHR 0x0A]) @ rest)
        = complete_lines (l @ [CHR 0x0A]) @ complete_lines (remainder (l @ [CHR 0x0A]) @ rest)"
    by (rule complete_lines_append)
  also have "\<dots> = [l] @ complete_lines rest"
    using split_newline_terminated [OF assms(2)] by (simp add: complete_lines_def remainder_def)
  finally show ?thesis by simp
qed

lemma complete_lines_aligned:
  assumes "remainder before = []"
  shows "complete_lines (before @ rest) = complete_lines before @ complete_lines rest"
  using complete_lines_append [of before rest] assms by simp

lemma handle_line_sentinel: "handle_line parse ''data: [DONE]'' = Stop"
  by (simp add: handle_line_def startsWith_def)

lemma process_lines_sentinel:
  "process_lines parse (xs @ ''data: [DONE]'' # ys) = (fst (process_lines parse xs), True)"
  by (cases "process_lines parse xs")
     (simp add: process_lines_append handle_line_sentinel)

lemma read_loop_reads: "snd (read_loop parse buffer rs) \<le> length rs"
proof (induction rs arbitrary: buffer)
  case Nil
  then show ?case by simp
next
  case (Cons r rs)
  have "snd (read_loop parse (last (split_newline (buffer @ r))) rs) \<le> length rs"
    by (rule Cons.IH)
  then show ?case
    by (auto simp: Let_def split: prod.splits bool.splits)
qed

lemma read_loop_stop:
  "CHR 0x0A \<notin> set buffer \<Longrightarrow>
   snd (process_lines parse (complete_lines (buffer @ concat rs))) \<Longrightarrow>
   read_loop parse buffer (rs @ later) = read_loop parse buffer rs"
proof (induction rs arbitrary: buffer)
  case Nil
  then show ?case by (simp add: complete_lines_def split_newline_no_newline)
next
  case (Cons r rs)
  have nn: "CHR 0x0A \<notin> set (remainder (buffer @ r))" by (rule remainder_no_newline)
  have cl: "complete_lines (buffer @ r @ concat rs)
            = complete_lines (buffer @ r) @ complete_lines (remainder (buffer @ r) @ concat rs)"
    using complete_lines_append [of "buffer @ r" "concat rs"] by simp
  show ?case
  proof (cases "snd (process_lines parse (complete_lines (buffer @ r)))")
    case True
    then show ?thesis
      by (auto simp: complete_lines_def [symmetric] split: prod.splits bool.splits)
  next
    case False
    with Cons.prems(2) have "snd (process_lines parse (complete_lines (remainder (buffer @ r) @ concat rs)))"
      by (simp add: cl process_lines_append)
    from Cons.IH [OF nn this] show ?thesis
      by (auto simp: complete_lines_def [symmetric] remainder_def [symmetric]
               split: prod.splits bool.splits)
  qed
qed

text \<open>
  C1. Two split points cut the text of the body anywhere, also inside one data line:
  the reads \<open>a\<close>, \<open>b\<close>, \<open>c\<close> yield what the single read \<open>a @ b @ c\<close> yields, whatever
  was read earlier or comes later, and what the whole body yields when it arrives in
  one read. In each case the generator yields what the newline-terminated lines of the
  whole text yield, in order: the text after the last newline waits in the buffer and
  is never parsed by itself.
\<close>

theorem streamText_split_invariant:
  "streamText parse (streaming (earlier @ [a, b, c] @ later))
     = streamText parse (streaming (earlier @ [a @ b @ c] @ later))
   \<and> streamText parse (streaming (earlier @ [a, b, c] @ later))
     = streamText parse (streaming [concat earlier @ a @ b @ c @ concat later])
   \<and> streamText parse (streaming (earlier @ [a, b, c] @ later))
     = Inr (fst (process_lines parse (complete_lines (concat earlier @ a @ b @ c @ concat later))))"
  by (simp add: streamText_streaming)

lemma streamText_any_chunking:
  "concat reads = concat reads' \<Longrightarrow>
   streamText parse (streaming reads) = streamText parse (streaming reads')"
  by (simp add: streamText_streaming)

lemma streamText_split_example:
  "streamText sample_parse
     (streaming [''data: '' @ take 9 (delta_text ''Hel''),
                 take 12 (drop 9 (delta_text ''Hel'')),
                 drop 21 (delta_text ''Hel'') @ [CHR 0x0A] @ ''data: '' @ delta_text ''lo''])
   = Inr [JString ''Hel'']"
  by code_simp

text \<open>
  C2. When the text read so far holds a line \<open>data: [DONE]\<close> (starting at the beginning
  of the body or after a newline, and ended by its newline), the generator is over: the
  reads that follow are never asked for, and the values yielded are those of the lines
  before the sentinel, whatever stands after it in the same read or in later ones.
\<close>

theorem streamText_stops_at_sentinel:
  assumes "concat reads = before @ ''data: [DONE]'' @ [CHR 0x0A] @ rest"
    and "before = [] \<or> last before = CHR 0x0A"
  shows "read_loop parse [] (reads @ later) = read_loop parse [] reads
       \<and> snd (read_loop parse [] (reads @ later)) \<le> length reads
       \<and> streamText parse (streaming (reads @ later)) = streamText parse (streaming [before])"
proof -
  have al: "remainder before = []" using assms(2) by (rule aligned_remainder)
  have nn: "CHR 0x0A \<notin> set ''data: [DONE]''" by simp
  have cl: "complete_lines (concat reads)
            = complete_lines before @ ''data: [DONE]'' # complete_lines rest"
    using complete_lines_line [OF al nn, of rest] assms(1) by simp
  have stop: "snd (process_lines parse (complete_lines ([] @ concat reads)))"
    by (simp add: cl process_lines_sentinel)
  have e1: "read_loop parse [] (reads @ later) = read_loop parse [] reads"
    by (rule read_loop_stop [OF _ stop]) simp
  have e2: "snd (read_loop parse [] (reads @ later)) \<le> length reads"
    unfolding e1 by (rule read_loop_reads)
  have "fst (read_loop parse [] (reads @ later)) = fst (process_lines parse (complete_lines before))"
    unfolding e1 using read_loop_yields [of "[]" parse reads]
    by (simp add: cl process_lines_sentinel)
  then have e3: "streamText parse (streaming (reads @ later)) = streamText parse (streaming [before])"
    using read_loop_yields [of "[]" parse "reads @ later"]
    by (simp add: streamText_streaming)
  from e1 e2 e3 show ?thesis by blast
qed

theorem streamText_stops_at_sentinel_witness:
  "streamText sample_parse
     (streaming ([data_line (delta_text ''Hel'') @ ''data: [DO'',
                  ''NE]'' @ [CHR 0x0A] @ data_line (delta_text ''lo'')]
                 @ [data_line (delta_text ''lo'')]))
   = Inr [JString ''Hel'']
   \<and> snd (read_loop sample_parse []
             ([data_line (delta_text ''Hel'') @ ''data: [DO'',
               ''NE]'' @ [CHR 0x0A] @ data_line (delta_text ''lo'')]
              @ [data_line (delta_text ''lo'')])) \<le> 2"
proof -
  let ?reads = "[data_line (delta_text ''Hel'') @ ''data: [DO'',
                 ''NE]'' @ [CHR 0x0A] @ data_line (delta_text ''lo'')]"
  let ?before = "data_line (delta_text ''Hel'')"
  have h1: "concat ?reads = ?before @ ''data: [DONE]'' @ [CHR 0x0A] @ data_line (delta_text ''lo'')"
    by simp
  have h2: "?before = [] \<or> last ?before = CHR 0x0A"
    by (simp add: data_line_def)
  have v: "streamText sample_parse (streaming [?before]) = Inr [JString ''Hel'']"
    by code_simp
  from streamText_stops_at_sentinel [OF h1 h2, of sample_parse "[data_line (delta_text ''lo'')]"]
  have e2: "snd (read_loop sample_parse [] (?reads @ [data_line (delta_text ''lo'')])) \<le> length ?reads"
    and e3: "streamText sample_parse (streaming (?reads @ [data_line (delta_text ''lo'')]))
             = streamText sample_parse (streaming [?before])"
    by blast+
  have l: "length ?reads = 2" by simp
  show ?thesis
    by (rule conjI, rule trans [OF e3 v], rule ord_le_eq_trans [OF e2 l])
qed

lemma handle_line_malformed:
  assumes "parse bad = None" and "bad \<noteq> ''[DONE]''"
  shows "handle_line parse (''data: '' @ bad) = Skip"
  using assms by (simp add: handle_line_def startsWith_def try_chunk_def)

lemma handle_line_null:
  assumes "parse data = Some JNull" and "data \<noteq> ''[DONE]''"
  shows "handle_line parse (''data: '' @ data) = Skip"
  using assms by (simp add: handle_line_def startsWith_def try_chunk_def chunk_content_def)

lemma handle_line_content:
  assumes "try_chunk parse data = Inr (Some content)" and "data \<noteq> ''[DONE]''"
  shows "handle_line parse (''data: '' @ data) = Yield content"
  using assms by (simp add: handle_line_def startsWith_def)

lemma process_lines_malformed_then_valid:
  assumes "parse bad = None" and "bad \<noteq> ''[DONE]''"
    and "try_chunk parse good = Inr (Some content)" and "good \<noteq> ''[DONE]''"
  shows "process_lines parse ((''data: '' @ bad) # (''data: '' @ good) # rest)
         = (content # fst (process_lines parse rest), snd (process_lines parse rest))"
  by (simp only: process_lines.simps line_action.case
        handle_line_malformed [of parse bad, OF assms(1,2)]
        handle_line_content [of parse good, OF assms(3,4)])
     (simp add: case_prod_beta)

text \<open>
  C3. A data line whose payload \<open>JSON.parse\<close> rejects is skipped: the generator does not
  throw, and it yields exactly what the same body without that line yields, so the
  lines after the malformed one are handled as if it had not been there. The sentinel
  payload \<open>[DONE]\<close> is compared before anything is parsed and is not such a line.
\<close>

theorem streamText_skips_malformed:
  assumes "parse bad = None" and "bad \<noteq> ''[DONE]''" and "CHR 0x0A \<notin> set bad"
    and "before = [] \<or> last before = CHR 0x0A"
    and "concat reads = before @ ''data: '' @ bad @ [CHR 0x0A] @ rest"
  shows "streamText parse (streaming reads) = streamText parse (streaming [before @ rest])
       \<and> streamText parse (streaming reads)
           = Inr (fst (process_lines parse (complete_lines before @ complete_lines rest)))"
proof -
  have al: "remainder before = []" using assms(4) by (rule aligned_remainder)
  have nn: "CHR 0x0A \<notin> set (''data: '' @ bad)" using assms(3) by simp
  have cl: "complete_lines (concat reads)
            = complete_lines before @ (''data: '' @ bad) # complete_lines rest"
    using complete_lines_line [OF al nn, of rest] assms(5) by simp
  have sk: "process_lines parse ((''data: '' @ bad) # complete_lines rest)
            = process_lines parse (complete_lines rest)"
    by (simp only: process_lines.simps handle_line_malformed [of parse bad, OF assms(1,2)]
                   line_action.case)
  have "process_lines parse (complete_lines (concat reads))
        = process_lines parse (complete_lines before @ complete_lines rest)"
    unfolding cl using sk by (simp add: process_lines_append)
  then show ?thesis
    by (simp add: streamText_streaming complete_lines_aligned [OF al])
qed

theorem streamText_skips_malformed_witness:
  "streamText sample_parse
     (streaming [data_line (delta_text ''Hel'') @ ''data: {bro'',
                 ''ken'' @ [CHR 0x0A] @ data_line (delta_text ''lo'')])
   = Inr [JString ''Hel'', JString ''lo'']"
proof -
  let ?reads = "[data_line (delta_text ''Hel'') @ ''data: {bro'',
                 ''ken'' @ [CHR 0x0A] @ data_line (delta_text ''lo'')]"
  let ?before = "data_line (delta_text ''Hel'')"
  let ?rest = "data_line (delta_text ''lo'')"
  have h1: "sample_parse ''{broken'' = None" by code_simp
  have h2: "''{broken'' \<noteq> ''[DONE]''" by simp
  have h3: "CHR 0x0A \<notin> set ''{broken''" by simp
  have h4: "?before = [] \<or> last ?before = CHR 0x0A" by (simp add: data_line_def)
  have h5: "concat ?reads = ?before @ ''data: '' @ ''{broken'' @ [CHR 0x0A] @ ?rest" by simp
  have v: "streamText sample_parse (streaming [?before @ ?rest]) = Inr [JString ''Hel'', JString ''lo'']"
    by code_simp
  from streamText_skips_malformed
         [where parse = sample_parse and bad = "''{broken''", OF h1 h2 h3 h4 h5]
  have "streamText sample_parse (streaming ?reads) = streamText sample_parse (streaming [?before @ ?rest])"
    by blast
  then show ?thesis by (rule trans [OF _ v])
qed

section \<open>Properties of the configuration\<close>

lemma str_includes_sublist: "str_includes s sub = sublist sub s"
  by (induction s) (simp_all add: sublist_Cons_right startsWith_def)

lemma no_temp_scan_iff:
  "no_temp_scan m ds = (\<not> (\<exists>d. d \<in> set ds \<and> sublist d m))"
  by (induction ds) (auto simp: str_includes_sublist)

text \<open>
  C8. \<open>modelSupportsTemperature\<close> is false for \<open>gpt-5-mini\<close> and true for \<open>gpt-4o\<close>, and in
  general it is true exactly when no entry of the denylist occurs as a contiguous part
  of the lower-cased model id.
\<close>

theorem modelSupportsTemperature_denylist:
  "\<not> modelSupportsTemperature ''gpt-5-mini''
   \<and> modelSupportsTemperature ''gpt-4o''
   \<and> modelSupportsTemperature model
       = (\<not> (\<exists>d ps ss. d \<in> set NO_TEMPERATURE_MODELS \<and> toLowerCase model = ps @ d @ ss))"
proof -
  have a: "\<not> modelSupportsTemperature ''gpt-5-mini''" by code_simp
  have b: "modelSupportsTemperature ''gpt-4o''" by code_simp
  have c: "modelSupportsTemperature model
       = (\<not> (\<exists>d ps ss. d \<in> set NO_TEMPERATURE_MODELS \<and> toLowerCase model = ps @ d @ ss))"
    by (simp only: modelSupportsTemperature_def no_temp_scan_iff sublist_def) blast
  from a b c show ?thesis by blast
qed

lemma modelSupportsTemperature_examples:
  "\<not> modelSupportsTemperature ''openai/GPT-5''"
  "\<not> modelSupportsTemperature ''o3-mini-2025''"
  "modelSupportsTemperature ''claude-sonnet-4''"
  by code_simp+

lemma bit_length_one: "bit_length 1 = 1"
  by (simp add: bit_length.simps [of 1] bit_length.simps [of 0])

lemma bit_length_bounds: "0 < n \<Longrightarrow> 2 ^ (bit_length n - 1) \<le> n \<and> n < 2 ^ bit_length n"
proof (induction n rule: bit_length.induct)
  case (1 n)
  show ?case
  proof (cases "n div 2 = 0")
    case True
    with "1.prems" have "n = 1" by presburger
    then show ?thesis by (simp add: bit_length_one)
  next
    case False
    with "1.prems" have pos: "0 < n div 2" by presburger
    from "1.IH" "1.prems" pos
    have ih: "2 ^ (bit_length (n div 2) - 1) \<le> n div 2 \<and> n div 2 < 2 ^ bit_length (n div 2)"
      by simp
    have bl: "bit_length n = Suc (bit_length (n div 2))"
      using "1.prems" by (simp add: bit_length.simps [of n])
    have blpos: "0 < bit_length (n div 2)"
      using pos by (simp add: bit_length.simps [of "n div 2"])
    then obtain k where k: "bit_length (n div 2) = Suc k" by (cases "bit_length (n div 2)") auto
    from ih have a: "2 ^ k \<le> n div 2" and b: "n div 2 < 2 ^ Suc k" unfolding k by simp_all
    from a have "2 * 2 ^ k \<le> n" by presburger
    moreover from b have "n < 2 * 2 ^ Suc k" by presburger
    ultimately show ?thesis unfolding bl k by simp
  qed
qed

lemma round_magnitude_exact: "n < 2 ^ 53 \<Longrightarrow> round_magnitude n = Num n"
  by (simp add: round_magnitude_def)

lemma round_magnitude_positive:
  assumes "0 \<le> n"
  shows "js_positive (round_magnitude n) = (0 < n)"
proof (cases "n < 2 ^ 53")
  case True
  then show ?thesis by (simp add: round_magnitude_def js_positive_def)
next
  case False
  define B :: int where "B = 2 ^ 53"
  have Bpos: "0 < B" by (simp add: B_def)
  from False have big: "B \<le> n" by (simp add: B_def)
  then have pos: "0 < n" using Bpos by simp
  let ?e = "bit_length n - 53"
  have "n < 2 ^ bit_length n" using bit_length_bounds [OF pos] by simp
  with big have "(2::int) ^ 53 < 2 ^ bit_length n" unfolding B_def by (rule le_less_trans)
  then have "53 < bit_length n" by (simp only: power_strict_increasing_iff rel_simps)
  then have "?e \<le> bit_length n - 1" by simp
  then have "(2::int) ^ ?e \<le> 2 ^ (bit_length n - 1)" by (simp only: power_increasing_iff rel_simps)
  also have "\<dots> \<le> n" using bit_length_bounds [OF pos] by simp
  finally have le: "(2::int) ^ ?e \<le> n" .
  have p2: "(0::int) < 2 ^ ?e" by simp
  have q: "0 < n div 2 ^ ?e" using le p2 by (simp add: pos_imp_zdiv_pos_iff)
  define m where "m = (if 2 ^ (?e - 1) < n mod 2 ^ ?e \<or> (n mod 2 ^ ?e = 2 ^ (?e - 1) \<and> odd (n div 2 ^ ?e))
                  then n div 2 ^ ?e + 1 else n div 2 ^ ?e)"
  define v where "v = m * 2 ^ ?e"
  have "0 < m" using q by (simp add: m_def)
  then have vpos: "0 < v" using p2 by (simp add: v_def)
  have d: "round_magnitude n = (if 2 ^ 1024 \<le> v then Infinity else Num v)"
    using False unfolding round_magnitude_def Let_def v_def m_def by (simp only: if_False)
  show ?thesis
  proof (cases "2 ^ 1024 \<le> v")
    case True
    then have "round_magnitude n = Infinity" unfolding d by (simp only: if_True)
    then show ?thesis using pos by (simp add: js_positive_def)
  next
    case False
    then have "round_magnitude n = Num v" unfolding d by (simp only: if_False)
    then show ?thesis using pos vpos by (simp add: js_positive_def)
  qed
qed

lemma js_positive_negate_nonneg:
  "0 \<le> n \<Longrightarrow> \<not> js_positive (js_negate (round_magnitude n))"
proof -
  assume n: "0 \<le> n"
  show ?thesis
  proof (cases "round_magnitude n")
    case NaN then show ?thesis by (simp add: js_negate_def js_positive_def)
  next
    case (Num k)
    with round_magnitude_positive [OF n] have "0 < k \<longleftrightarrow> 0 < n" by (simp add: js_positive_def)
    moreover have "n = 0 \<Longrightarrow> k = 0" using Num by (simp add: round_magnitude_def)
    ultimately have "0 \<le> k" using n by (cases "n = 0") auto
    then show ?thesis using Num by (simp add: js_negate_def js_positive_def)
  next
    case Infinity then show ?thesis by (simp add: js_negate_def js_positive_def)
  next
    case NegInfinity
    then have False by (simp add: round_magnitude_def Let_def split: if_splits)
    then show ?thesis ..
  qed
qed

lemma number_value_positive: "js_positive (number_value i) = (0 < i)"
proof (cases "i < 0")
  case True
  then have "0 \<le> - i" by simp
  from js_positive_negate_nonneg [OF this] True show ?thesis by (simp add: number_value_def)
next
  case False
  then show ?thesis using round_magnitude_positive [of i] by (simp add: number_value_def)
qed

lemma number_value_exact: "0 \<le> i \<Longrightarrow> i < 2 ^ 53 \<Longrightarrow> number_value i = Num i"
  by (simp add: number_value_def round_magnitude_exact)

lemma digits_value_positional:
  "digits_value [] = 0"
  "digits_value (ds @ [c]) = 10 * digits_value ds + digit_value c"
  by (simp_all add: digits_value_def)

lemma digit_value_nonneg: "is_digit c \<Longrightarrow> 0 \<le> digit_value c"
  by (simp add: is_digit_def digit_value_def Let_def)

lemma foldl_digits_nonneg:
  "0 \<le> acc \<Longrightarrow> list_all is_digit ds \<Longrightarrow> 0 \<le> foldl (\<lambda>acc c. 10 * acc + digit_value c) acc ds"
  by (induction ds arbitrary: acc) (simp_all add: digit_value_nonneg)

lemma digits_value_nonneg: "list_all is_digit ds \<Longrightarrow> 0 \<le> digits_value ds"
  unfolding digits_value_def by (rule foldl_digits_nonneg) simp_all

lemma is_digit_plain:
  "is_digit c \<Longrightarrow> \<not> is_js_space c \<and> c \<noteq> CHR ''+'' \<and> c \<noteq> CHR ''-''"
  by (auto simp: is_digit_def is_js_space_def Let_def)

lemma takeWhile_digits:
  assumes "list_all is_digit ds" and "junk = [] \<or> \<not> is_digit (hd junk)"
  shows "takeWhile is_digit (ds @ junk) = ds"
  using assms by (cases junk) (auto simp: list_all_iff)

lemma dropWhile_space_body:
  assumes "list_all is_js_space w" and "payload = [] \<or> \<not> is_js_space (hd payload)"
  shows "dropWhile is_js_space (w @ payload) = payload"
  using assms by (cases payload) (auto simp: list_all_iff)

lemma parseInt10_unsigned:
  assumes "list_all is_js_space w" and "lead = [] \<or> lead = ''+''"
    and "ds \<noteq> []" and "list_all is_digit ds" and "junk = [] \<or> \<not> is_digit (hd junk)"
  shows "parseInt10 (w @ lead @ ds @ junk) = number_value (digits_value ds)"
proof -
  obtain c cs where ds: "ds = c # cs" using assms(3) by (cases ds) auto
  then have c: "is_digit c" using assms(4) by simp
  have tw: "takeWhile is_digit (ds @ junk) = ds" using assms(4,5) by (rule takeWhile_digits)
  have "lead @ ds @ junk = [] \<or> \<not> is_js_space (hd (lead @ ds @ junk))"
    using assms(2) is_digit_plain [OF c] ds by (auto simp: is_js_space_def)
  then have dw: "dropWhile is_js_space (w @ lead @ ds @ junk) = lead @ ds @ junk"
    by (rule dropWhile_space_body [OF assms(1)])
  show ?thesis
    unfolding parseInt10_def dw Let_def
    using assms(2,3) is_digit_plain [OF c] tw ds by auto
qed

lemma parseInt10_minus:
  assumes "list_all is_js_space w"
  shows "\<not> js_positive (parseInt10 (w @ ''-'' @ rest))"
proof -
  have "''-'' @ rest = [] \<or> \<not> is_js_space (hd (''-'' @ rest))" by (simp add: is_js_space_def)
  then have dw: "dropWhile is_js_space (w @ ''-'' @ rest) = ''-'' @ rest"
    by (rule dropWhile_space_body [OF assms])
  have nn: "0 \<le> digits_value (takeWhile is_digit rest)"
    by (rule digits_value_nonneg) (simp add: list_all_iff, metis set_takeWhileD)
  have "\<not> js_positive (number_value (- digits_value (takeWhile is_digit rest)))"
    using nn by (simp add: number_value_positive)
  then show ?thesis
    unfolding parseInt10_def dw Let_def by (simp add: js_positive_def)
qed

lemma parseInt10_no_digit:
  assumes "list_all is_js_space w" and "lead = [] \<or> lead = ''+''"
    and "rest = [] \<or> \<not> is_digit (hd rest)"
    and "lead = [] \<longrightarrow> rest = [] \<or> (\<not> is_js_space (hd rest) \<and> hd rest \<noteq> CHR ''+'' \<and> hd rest \<noteq> CHR ''-'')"
  shows "parseInt10 (w @ lead @ rest) = NaN"
proof -
  have "lead @ rest = [] \<or> \<not> is_js_space (hd (lead @ rest))"
    using assms(2,4) by (auto simp: is_js_space_def)
  then have dw: "dropWhile is_js_space (w @ lead @ rest) = lead @ rest"
    by (rule dropWhile_space_body [OF assms(1)])
  have tw: "takeWhile is_digit rest = []" using assms(3) by (cases rest) auto
  show ?thesis
    unfolding parseInt10_def dw Let_def
    using assms(2,4) tw by (cases rest) auto
qed

lemma positive_or_value:
  "positive_or (Some s) d = (if js_positive (parseInt10 s) then parseInt10 s else d)"
proof -
  have "parseInt10 [] = NaN" by (simp add: parseInt10_def)
  then show ?thesis by (simp add: positive_or_def js_positive_def Let_def)
qed

lemma numeric_text_shapes:
  "\<exists>w payload lead ds junk rest. s = w @ payload \<and> list_all is_js_space w
     \<and> (payload = lead @ ds @ junk \<and> (lead = [] \<or> lead = ''+'') \<and> ds \<noteq> [] \<and> list_all is_digit ds
          \<and> (junk = [] \<or> \<not> is_digit (hd junk))
        \<or> payload = ''-'' @ rest
        \<or> payload = lead @ rest \<and> (lead = [] \<or> lead = ''+'') \<and> (rest = [] \<or> \<not> is_digit (hd rest))
          \<and> (lead = [] \<longrightarrow> rest = [] \<or> (\<not> is_js_space (hd rest) \<and> hd rest \<noteq> CHR ''+''
                \<and> hd rest \<noteq> CHR ''-'')))"
proof -
  let ?w = "takeWhile is_js_space s"
  let ?p = "dropWhile is_js_space s"
  have s: "s = ?w @ ?p" by simp
  have w: "list_all is_js_space ?w" by (simp add: list_all_iff) (metis set_takeWhileD)
  have split: "\<And>r. r = takeWhile is_digit r @ dropWhile is_digit r" by simp
  have dig: "\<And>r. list_all is_digit (takeWhile is_digit r)"
    by (simp add: list_all_iff) (metis set_takeWhileD)
  have junk: "\<And>r. dropWhile is_digit r = [] \<or> \<not> is_digit (hd (dropWhile is_digit r))"
    by (metis hd_dropWhile)
  have nodig: "\<And>r. takeWhile is_digit r = [] \<Longrightarrow> r = [] \<or> \<not> is_digit (hd r)"
    by (metis list.sel(1) takeWhile.simps(2) list.exhaust list.distinct(1))
  show ?thesis
  proof (cases ?p)
    case Nil
    then have "?p = [] @ []" by simp
    with s w show ?thesis by (metis append_Nil)
  next
    case (Cons c r)
    then have c: "\<not> is_js_space c" by (metis hd_dropWhile list.distinct(1) list.sel(1))
    consider (minus) "c = CHR ''-''" | (plus) "c = CHR ''+''" | (other) "c \<noteq> CHR ''-''" "c \<noteq> CHR ''+''"
      by blast
    then show ?thesis
    proof cases
      case minus
      then have "?p = ''-'' @ r" using Cons by simp
      with s w show ?thesis by blast
    next
      case plus
      show ?thesis
      proof (cases "takeWhile is_digit r = []")
        case True
        have "?p = ''+'' @ r" using Cons plus by simp
        moreover have "r = [] \<or> \<not> is_digit (hd r)" using True by (rule nodig)
        ultimately show ?thesis using s w by (metis list.distinct(1))
      next
        case False
        have "?p = ''+'' @ takeWhile is_digit r @ dropWhile is_digit r" using Cons plus by simp
        then show ?thesis using s w False dig [of r] junk [of r] by metis
      qed
    next
      case other
      show ?thesis
      proof (cases "is_digit c")
        case True
        then have ne: "takeWhile is_digit ?p \<noteq> []" using Cons by simp
        have "?p = [] @ takeWhile is_digit ?p @ dropWhile is_digit ?p" by simp
        then show ?thesis using s w ne dig [of ?p] junk [of ?p] by metis
      next
        case False
        have "?p = [] @ ?p" by simp
        moreover have "?p = [] \<or> \<not> is_digit (hd ?p)" using False Cons by simp
        moreover have "?p = [] \<or> (\<not> is_js_space (hd ?p) \<and> hd ?p \<noteq> CHR ''+'' \<and> hd ?p \<noteq> CHR ''-'')"
          using c other Cons by simp
        ultimately show ?thesis using s w by metis
      qed
    qed
  qed
qed

lemma parseInt10_examples:
  "parseInt10 ''768'' = Num 768"
  "parseInt10 '' 42 '' = Num 42"
  "parseInt10 ''+7'' = Num 7"
  "parseInt10 ''12abc'' = Num 12"
  "parseInt10 ''1.5'' = Num 1"
  "parseInt10 ''-5'' = Num (- 5)"
  "parseInt10 ''0'' = Num 0"
  "parseInt10 ''abc'' = NaN"
  "parseInt10 ''+'' = NaN"
  "parseInt10 ''9007199254740993'' = Num 9007199254740992"
  "parseInt10 ''9007199254740995'' = Num 9007199254740996"
  by code_simp+

lemma parseInt10_overflow: "parseInt10 (replicate 310 (CHR ''9'')) = Infinity"
  by code_simp

lemma numeric_settings_unset:
  assumes "getSetting env runtime ''AI_GATEWAY_EMBEDDING_DIMENSIONS'' = None"
    and "getSetting env runtime ''AI_GATEWAY_TIMEOUT_MS'' = None"
  shows "getEmbeddingDimensions env runtime = Num 1536 \<and> getTimeoutMs env runtime = Num 60000"
  using assms
  by (simp add: getEmbeddingDimensions_def getTimeoutMs_def positive_or_def
                DEFAULT_embeddingDimensions_def DEFAULT_timeoutMs_def)

text \<open>
  C9. The two numeric settings are read with \<open>parseInt(value, 10)\<close>, and nothing in the
  two resolvers throws: each is a total function to a number. Every configured string
  is some white space followed by a text of one of three shapes (\<open>numeric_text_shapes\<close>),
  and the shape decides the result:
  \<^item> an optional \<open>+\<close>, then a run of decimal digits that ends at the end of the text or
    at a character that is not a digit: the resolver returns the Number value of that
    run when it is not zero (the run itself below \<open>2^53\<close>, the nearest double above,
    Infinity from \<open>2^1024\<close> on), whatever follows the digits, and the default when it
    is zero;
  \<^item> a \<open>-\<close> and anything: the default;
  \<^item> no digit after the optional \<open>+\<close>: the default.
  The defaults are 1536 dimensions and 60000 ms.
\<close>

theorem numeric_settings_by_shape:
  assumes "(resolver, key, d) = (getEmbeddingDimensions, ''AI_GATEWAY_EMBEDDING_DIMENSIONS'', Num 1536)
         \<or> (resolver, key, d) = (getTimeoutMs, ''AI_GATEWAY_TIMEOUT_MS'', Num 60000)"
    and "getSetting env runtime key = Some (w @ payload)"
    and "list_all is_js_space w"
  shows "(payload = lead @ ds @ junk \<and> (lead = [] \<or> lead = ''+'') \<and> ds \<noteq> [] \<and> list_all is_digit ds
            \<and> (junk = [] \<or> \<not> is_digit (hd junk))
          \<longrightarrow> resolver env runtime
                = (if digits_value ds = 0 then d else number_value (digits_value ds))
              \<and> (digits_value ds < 2 ^ 53 \<longrightarrow> number_value (digits_value ds) = Num (digits_value ds)))
       \<and> (payload = ''-'' @ rest \<longrightarrow> resolver env runtime = d)
       \<and> (payload = lead @ rest \<and> (lead = [] \<or> lead = ''+'') \<and> (rest = [] \<or> \<not> is_digit (hd rest))
            \<and> (lead = [] \<longrightarrow> rest = [] \<or> (\<not> is_js_space (hd rest) \<and> hd rest \<noteq> CHR ''+''
                  \<and> hd rest \<noteq> CHR ''-''))
          \<longrightarrow> resolver env runtime = d)"
proof -
  have r: "resolver env runtime
           = (if js_positive (parseInt10 (w @ payload)) then parseInt10 (w @ payload) else d)"
    using assms(1,2)
    by (auto simp: getEmbeddingDimensions_def getTimeoutMs_def positive_or_value
                   DEFAULT_embeddingDimensions_def DEFAULT_timeoutMs_def)
  have a: "payload = lead @ ds @ junk \<and> (lead = [] \<or> lead = ''+'') \<and> ds \<noteq> [] \<and> list_all is_digit ds
            \<and> (junk = [] \<or> \<not> is_digit (hd junk))
          \<longrightarrow> resolver env runtime
                = (if digits_value ds = 0 then d else number_value (digits_value ds))
              \<and> (digits_value ds < 2 ^ 53 \<longrightarrow> number_value (digits_value ds) = Num (digits_value ds))"
  proof (intro impI)
    assume h: "payload = lead @ ds @ junk \<and> (lead = [] \<or> lead = ''+'') \<and> ds \<noteq> [] \<and> list_all is_digit ds
            \<and> (junk = [] \<or> \<not> is_digit (hd junk))"
    then have p: "parseInt10 (w @ payload) = number_value (digits_value ds)"
      using parseInt10_unsigned [OF assms(3), of lead ds junk] by simp
    have nn: "0 \<le> digits_value ds" using h by (simp add: digits_value_nonneg)
    have "resolver env runtime = (if digits_value ds = 0 then d else number_value (digits_value ds))"
      unfolding r p using nn by (auto simp: number_value_positive)
    moreover have "digits_value ds < 2 ^ 53 \<longrightarrow> number_value (digits_value ds) = Num (digits_value ds)"
      using nn by (simp add: number_value_exact)
    ultimately show "resolver env runtime
                = (if digits_value ds = 0 then d else number_value (digits_value ds))
              \<and> (digits_value ds < 2 ^ 53 \<longrightarrow> number_value (digits_value ds) = Num (digits_value ds))"
      by (rule conjI)
  qed
  have b: "payload = ''-'' @ rest \<longrightarrow> resolver env runtime = d"
    unfolding r using parseInt10_minus [OF assms(3), of rest] by auto
  have c: "payload = lead @ rest \<and> (lead = [] \<or> lead = ''+'') \<and> (rest = [] \<or> \<not> is_digit (hd rest))
            \<and> (lead = [] \<longrightarrow> rest = [] \<or> (\<not> is_js_space (hd rest) \<and> hd rest \<noteq> CHR ''+''
                  \<and> hd rest \<noteq> CHR ''-''))
          \<longrightarrow> resolver env runtime = d"
  proof (intro impI)
    assume h: "payload = lead @ rest \<and> (lead = [] \<or> lead = ''+'') \<and> (rest = [] \<or> \<not> is_digit (hd rest))
            \<and> (lead = [] \<longrightarrow> rest = [] \<or> (\<not> is_js_space (hd rest) \<and> hd rest \<noteq> CHR ''+''
                  \<and> hd rest \<noteq> CHR ''-''))"
    then have "parseInt10 (w @ payload) = NaN"
      using parseInt10_no_digit [OF assms(3), of lead rest] by simp
    then show "resolver env runtime = d" unfolding r by (simp add: js_positive_def)
  qed
  from a b c show ?thesis by (intro conjI)
qed

theorem numeric_settings_by_shape_witness:
  "getTimeoutMs empty_env (Some (settings_of [(''AI_GATEWAY_TIMEOUT_MS'', '' 42ms'')])) = Num 42
   \<and> getEmbeddingDimensions empty_env
       (Some (settings_of [(''AI_GATEWAY_EMBEDDING_DIMENSIONS'', ''-768'')])) = Num 1536
   \<and> getEmbeddingDimensions empty_env
       (Some (settings_of [(''AI_GATEWAY_EMBEDDING_DIMENSIONS'', ''large'')])) = Num 1536"
proof -
  have k1: "(getTimeoutMs, ''AI_GATEWAY_TIMEOUT_MS'', Num 60000)
              = (getEmbeddingDimensions, ''AI_GATEWAY_EMBEDDING_DIMENSIONS'', Num 1536)
          \<or> (getTimeoutMs, ''AI_GATEWAY_TIMEOUT_MS'', Num 60000)
              = (getTimeoutMs, ''AI_GATEWAY_TIMEOUT_MS'', Num 60000)" by simp
  have k2: "(getEmbeddingDimensions, ''AI_GATEWAY_EMBEDDING_DIMENSIONS'', Num 1536)
              = (getEmbeddingDimensions, ''AI_GATEWAY_EMBEDDING_DIMENSIONS'', Num 1536)
          \<or> (getEmbeddingDimensions, ''AI_GATEWAY_EMBEDDING_DIMENSIONS'', Num 1536)
              = (getTimeoutMs, ''AI_GATEWAY_TIMEOUT_MS'', Num 60000)" by simp
  have sp: "list_all is_js_space '' ''" and sp0: "list_all is_js_space []" by code_simp+
  have g1: "getSetting empty_env (Some (settings_of [(''AI_GATEWAY_TIMEOUT_MS'', '' 42ms'')]))
              ''AI_GATEWAY_TIMEOUT_MS'' = Some ('' '' @ ''42ms'')" by code_simp
  have g2: "getSetting empty_env (Some (settings_of [(''AI_GATEWAY_EMBEDDING_DIMENSIONS'', ''-768'')]))
              ''AI_GATEWAY_EMBEDDING_DIMENSIONS'' = Some ([] @ ''-768'')" by code_simp
  have g3: "getSetting empty_env (Some (settings_of [(''AI_GATEWAY_EMBEDDING_DIMENSIONS'', ''large'')]))
              ''AI_GATEWAY_EMBEDDING_DIMENSIONS'' = Some ([] @ ''large'')" by code_simp
  have s1: "''42ms'' = [] @ ''42'' @ ''ms'' \<and> ([] = [] \<or> [] = ''+'') \<and> ''42'' \<noteq> [] \<and> list_all is_digit ''42''
            \<and> (''ms'' = [] \<or> \<not> is_digit (hd ''ms''))" by code_simp
  have v1: "digits_value ''42'' = 42 \<and> number_value 42 = Num 42" by code_simp
  have s2: "''-768'' = ''-'' @ ''768''" by simp
  have s3: "''large'' = [] @ ''large'' \<and> ([] = [] \<or> [] = ''+'') \<and> (''large'' = [] \<or> \<not> is_digit (hd ''large''))
            \<and> ([] = [] \<longrightarrow> ''large'' = [] \<or> (\<not> is_js_space (hd ''large'') \<and> hd ''large'' \<noteq> CHR ''+''
                  \<and> hd ''large'' \<noteq> CHR ''-''))" by code_simp
  from numeric_settings_by_shape [OF k1 g1 sp, of "[]" "''42''" "''ms''"] s1 v1
  have a: "getTimeoutMs empty_env (Some (settings_of [(''AI_GATEWAY_TIMEOUT_MS'', '' 42ms'')])) = Num 42"
    by simp
  from numeric_settings_by_shape [OF k2 g2 sp0, where rest = "''768''"] s2
  have b: "getEmbeddingDimensions empty_env
       (Some (settings_of [(''AI_GATEWAY_EMBEDDING_DIMENSIONS'', ''-768'')])) = Num 1536"
    by blast
  from numeric_settings_by_shape [OF k2 g3 sp0, where lead = "[]" and rest = "''large''"] s3
  have c: "getEmbeddingDimensions empty_env
       (Some (settings_of [(''AI_GATEWAY_EMBEDDING_DIMENSIONS'', ''large'')])) = Num 1536"
    by blast
  from a b c show ?thesis by (intro conjI)
qed

text \<open>
  A value that is not a number but begins with digits is not replaced by the default:
  its leading digits are used.
\<close>

theorem numeric_settings_prefix_is_used:
  "\<not> list_all is_digit ''12abc''
   \<and> getTimeoutMs empty_env (Some (settings_of [(''AI_GATEWAY_TIMEOUT_MS'', ''12abc'')])) = Num 12
   \<and> getEmbeddingDimensions empty_env
       (Some (settings_of [(''AI_GATEWAY_EMBEDDING_DIMENSIONS'', ''12abc'')])) = Num 12"
  by code_simp

lemma numeric_settings_examples:
  "getTimeoutMs empty_env (Some (settings_of [(''AI_GATEWAY_TIMEOUT_MS'', ''abc'')])) = Num 60000"
  "getTimeoutMs empty_env (Some (settings_of [(''AI_GATEWAY_TIMEOUT_MS'', ''0'')])) = Num 60000"
  "getTimeoutMs empty_env (Some (settings_of [(''AI_GATEWAY_TIMEOUT_MS'', ''1.5'')])) = Num 1"
  "getTimeoutMs empty_env (Some (settings_of [(''AI_GATEWAY_TIMEOUT_MS'', ''9007199254740993'')]))
   = Num 9007199254740992"
  "getEmbeddingDimensions empty_env None = Num 1536"
  by code_simp+

section \<open>Properties of the provider resolution\<close>

text \<open>
  C4. With a credential under \<open>OPENROUTER_API_KEY\<close>, none under \<open>AI_GATEWAY_API_KEY\<close> and
  none under the key of the preferred provider, \<open>resolveProvider\<close> answers
  \<open>openrouter\<close>, whichever provider was preferred and whatever the table of the other
  providers holds; a preferred \<open>openrouter\<close> gives \<open>openrouter\<close> as well.
\<close>

theorem resolveProvider_openrouter_only:
  assumes "has_key env runtime ''OPENROUTER_API_KEY''"
    and "\<not> has_key env runtime ''AI_GATEWAY_API_KEY''"
    and "preferred = ''openrouter'' \<or> \<not> has_key env runtime (key_of ENV_KEYS preferred)"
  shows "resolveProvider env ENV_KEYS runtime preferred = ''openrouter''"
  using assms by (auto simp: resolveProvider_def)

theorem resolveProvider_openrouter_only_witness:
  "resolveProvider empty_env sample_keys (settings_of [(''OPENROUTER_API_KEY'', ''sk-or'')]) ''openai''
   = ''openrouter''
   \<and> resolveProvider empty_env sample_keys (settings_of [(''OPENROUTER_API_KEY'', ''sk-or'')])
       ''vercel-gateway'' = ''openrouter''"
proof -
  let ?rt = "settings_of [(''OPENROUTER_API_KEY'', ''sk-or'')]"
  have h1: "has_key empty_env ?rt ''OPENROUTER_API_KEY''" by code_simp
  have h2: "\<not> has_key empty_env ?rt ''AI_GATEWAY_API_KEY''" by code_simp
  have h3: "''openai'' = ''openrouter'' \<or> \<not> has_key empty_env ?rt (key_of sample_keys ''openai'')"
    by code_simp
  have h4: "''vercel-gateway'' = ''openrouter''
            \<or> \<not> has_key empty_env ?rt (key_of sample_keys ''vercel-gateway'')"
    by code_simp
  show ?thesis
    by (rule conjI, rule resolveProvider_openrouter_only [OF h1 h2 h3],
        rule resolveProvider_openrouter_only [OF h1 h2 h4])
qed

lemma resolveProvider_examples:
  "resolveProvider empty_env sample_keys
     (settings_of [(''OPENROUTER_API_KEY'', ''sk-or''), (''AI_GATEWAY_API_KEY'', ''vck'')]) ''openai''
   = ''vercel-gateway''"
  "resolveProvider empty_env sample_keys (settings_of [(''ANTHROPIC_API_KEY'', ''sk-ant'')]) ''openai''
   = ''anthropic''"
  "resolveProvider empty_env sample_keys (settings_of []) ''openai'' = ''openai''"
  by code_simp+

section \<open>Properties of the resilient embedding handler\<close>

lemma fallback_vector_shape:
  "length (fallback_vector marker) = 768
   \<and> hd (fallback_vector marker) = JNumber marker
   \<and> tl (fallback_vector marker) = replicate 767 (JNumber 0)"
proof -
  have "replicate 768 (JNumber 0) = JNumber 0 # replicate 767 (JNumber 0)"
    by (simp add: replicate_Suc [symmetric] del: replicate_Suc)
  then show ?thesis by (simp add: fallback_vector_def)
qed

lemma getAIGatewayConfig_key:
  "(\<exists>config. getAIGatewayConfig env runtime = Inr config)
     = is_set (getSetting_nullish env runtime ''AI_GATEWAY_API_KEY'' None)"
  "(getAIGatewayConfig env runtime = Inl ApiKeyRequired)
     = (\<not> is_set (getSetting_nullish env runtime ''AI_GATEWAY_API_KEY'' None))"
  by (auto simp: getAIGatewayConfig_def is_set_def split: option.splits)

lemma resilient_without_key:
  "\<not> is_set (getSetting_nullish env runtime ''AI_GATEWAY_API_KEY'' None) \<Longrightarrow>
   handleTextEmbedding_resilient parse fetch env runtime params = Inl ApiKeyRequired"
  using getAIGatewayConfig_key(2) [of env runtime]
  by (simp add: handleTextEmbedding_resilient_def)

lemma resilient_text_not_a_string:
  assumes "getAIGatewayConfig env runtime = Inr config"
    and "truthy v" and "\<forall>s. v \<noteq> JString s"
  shows "handleTextEmbedding_resilient parse fetch env runtime (ParamsObject (Some v))
         = Inl TrimNotAFunction"
  using assms by (cases v) (simp_all add: handleTextEmbedding_resilient_def chosen_text_def)

text \<open>
  C5. The handler reads its configuration first. With \<open>AI_GATEWAY_API_KEY\<close> set to a
  non-empty value the configuration resolves, and then, for an input that is \<open>null\<close>,
  a string, an object whose \<open>text\<close> is a string, falsy or missing, or any other value,
  the handler does not throw, whatever the transport does: it answers the vector of
  the response, or a vector of 768 numbers that is zero except for its first element,
  which names the case: 0.1 for \<open>null\<close>, 0.2 for an input without a usable text, 0.3
  for a blank text, 0.4 for a request that throws, is refused, or whose body is not
  JSON or is a falsy value, 0.5 for a body without an embedding array. Without a
  non-empty \<open>AI_GATEWAY_API_KEY\<close> the handler throws, for every input.
\<close>

theorem resilient_embedding_fallbacks:
  "(getAIGatewayConfig env runtime = Inr config \<longrightarrow>
      handleTextEmbedding_resilient parse fetch env runtime ParamsNull
        = Inr (fallback_vector 0.1, None)
    \<and> (params \<noteq> ParamsNull \<and> chosen_text params = None
         \<longrightarrow> handleTextEmbedding_resilient parse fetch env runtime params
               = Inr (fallback_vector 0.2, None))
    \<and> (chosen_text params = Some (JString t) \<and> trim t = []
         \<longrightarrow> handleTextEmbedding_resilient parse fetch env runtime params
               = Inr (fallback_vector 0.3, None))
    \<and> (chosen_text params = Some (JString t) \<and> trim t \<noteq> []
         \<and> (fetch (request_url config ''/embeddings'' True) = FetchThrows message
            \<or> fetch (request_url config ''/embeddings'' True) = Fetched r
               \<and> (\<not> http_ok r \<or> parse (http_text r) = None
                   \<or> (\<exists>d. parse (http_text r) = Some d \<and> \<not> truthy d)))
         \<longrightarrow> handleTextEmbedding_resilient parse fetch env runtime params
               = Inr (fallback_vector 0.4, None))
    \<and> (chosen_text params = Some (JString t) \<and> trim t \<noteq> []
         \<and> fetch (request_url config ''/embeddings'' True) = Fetched r
         \<and> http_ok r \<and> parse (http_text r) = Some d \<and> truthy d
         \<and> response_embedding d = None
         \<longrightarrow> handleTextEmbedding_resilient parse fetch env runtime params
               = Inr (fallback_vector 0.5, None))
    \<and> ((\<forall>v. chosen_text params = Some v \<longrightarrow> (\<exists>s. v = JString s))
         \<longrightarrow> (\<exists>result. handleTextEmbedding_resilient parse fetch env runtime params = Inr result)))
   \<and> (is_set (getSetting_nullish env runtime ''AI_GATEWAY_API_KEY'' None)
        \<longrightarrow> (\<exists>config. getAIGatewayConfig env runtime = Inr config))
   \<and> (\<not> is_set (getSetting_nullish env runtime ''AI_GATEWAY_API_KEY'' None)
        \<longrightarrow> handleTextEmbedding_resilient parse fetch env runtime params = Inl ApiKeyRequired)
   \<and> length (fallback_vector marker) = 768
   \<and> hd (fallback_vector marker) = JNumber marker
   \<and> tl (fallback_vector marker) = replicate 767 (JNumber 0)"
proof -
  let ?H = "handleTextEmbedding_resilient parse fetch env runtime"
  have n: "chosen_text ParamsNull = None" by (simp add: chosen_text_def)
  have keyed: "getAIGatewayConfig env runtime = Inr config \<longrightarrow>
      ?H ParamsNull = Inr (fallback_vector 0.1, None)
    \<and> (params \<noteq> ParamsNull \<and> chosen_text params = None
         \<longrightarrow> ?H params = Inr (fallback_vector 0.2, None))
    \<and> (chosen_text params = Some (JString t) \<and> trim t = []
         \<longrightarrow> ?H params = Inr (fallback_vector 0.3, None))
    \<and> (chosen_text params = Some (JString t) \<and> trim t \<noteq> []
         \<and> (fetch (request_url config ''/embeddings'' True) = FetchThrows message
            \<or> fetch (request_url config ''/embeddings'' True) = Fetched r
               \<and> (\<not> http_ok r \<or> parse (http_text r) = None
                   \<or> (\<exists>d. parse (http_text r) = Some d \<and> \<not> truthy d)))
         \<longrightarrow> ?H params = Inr (fallback_vector 0.4, None))
    \<and> (chosen_text params = Some (JString t) \<and> trim t \<noteq> []
         \<and> fetch (request_url config ''/embeddings'' True) = Fetched r
         \<and> http_ok r \<and> parse (http_text r) = Some d \<and> truthy d
         \<and> response_embedding d = None
         \<longrightarrow> ?H params = Inr (fallback_vector 0.5, None))
    \<and> ((\<forall>v. chosen_text params = Some v \<longrightarrow> (\<exists>s. v = JString s))
         \<longrightarrow> (\<exists>result. ?H params = Inr result))"
  proof (intro impI)
    assume cfg: "getAIGatewayConfig env runtime = Inr config"
    have c1: "?H ParamsNull = Inr (fallback_vector 0.1, None)"
      using cfg by (simp add: handleTextEmbedding_resilient_def)
    have c2: "params \<noteq> ParamsNull \<and> chosen_text params = None
              \<longrightarrow> ?H params = Inr (fallback_vector 0.2, None)"
      using cfg by (simp add: handleTextEmbedding_resilient_def)
    have c3: "chosen_text params = Some (JString t) \<and> trim t = []
              \<longrightarrow> ?H params = Inr (fallback_vector 0.3, None)"
      using cfg n by (auto simp: handleTextEmbedding_resilient_def)
    have c4: "chosen_text params = Some (JString t) \<and> trim t \<noteq> []
              \<and> (fetch (request_url config ''/embeddings'' True) = FetchThrows message
                 \<or> fetch (request_url config ''/embeddings'' True) = Fetched r
                    \<and> (\<not> http_ok r \<or> parse (http_text r) = None
                        \<or> (\<exists>d. parse (http_text r) = Some d \<and> \<not> truthy d)))
              \<longrightarrow> ?H params = Inr (fallback_vector 0.4, None)"
      using cfg n
      by (auto simp: handleTextEmbedding_resilient_def makeOpenAIRequest_def makeRequest_def)
    have c5: "chosen_text params = Some (JString t) \<and> trim t \<noteq> []
              \<and> fetch (request_url config ''/embeddings'' True) = Fetched r
              \<and> http_ok r \<and> parse (http_text r) = Some d \<and> truthy d
              \<and> response_embedding d = None
              \<longrightarrow> ?H params = Inr (fallback_vector 0.5, None)"
      using cfg n
      by (auto simp: handleTextEmbedding_resilient_def makeOpenAIRequest_def makeRequest_def)
    have c6: "(\<forall>v. chosen_text params = Some v \<longrightarrow> (\<exists>s. v = JString s))
              \<longrightarrow> (\<exists>result. ?H params = Inr result)"
    proof
      assume st: "\<forall>v. chosen_text params = Some v \<longrightarrow> (\<exists>s. v = JString s)"
      show "\<exists>result. ?H params = Inr result"
      proof (cases "chosen_text params")
        case None
        then show ?thesis using cfg by (simp add: handleTextEmbedding_resilient_def)
      next
        case (Some v)
        with st obtain s where "v = JString s" by blast
        with Some show ?thesis
          using cfg by (auto simp: handleTextEmbedding_resilient_def Let_def split: option.splits)
      qed
    qed
    from c1 c2 c3 c4 c5 c6
    show "?H ParamsNull = Inr (fallback_vector 0.1, None)
    \<and> (params \<noteq> ParamsNull \<and> chosen_text params = None
         \<longrightarrow> ?H params = Inr (fallback_vector 0.2, None))
    \<and> (chosen_text params = Some (JString t) \<and> trim t = []
         \<longrightarrow> ?H params = Inr (fallback_vector 0.3, None))
    \<and> (chosen_text params = Some (JString t) \<and> trim t \<noteq> []
         \<and> (fetch (request_url config ''/embeddings'' True) = FetchThrows message
            \<or> fetch (request_url config ''/embeddings'' True) = Fetched r
               \<and> (\<not> http_ok r \<or> parse (http_text r) = None
                   \<or> (\<exists>d. parse (http_text r) = Some d \<and> \<not> truthy d)))
         \<longrightarrow> ?H params = Inr (fallback_vector 0.4, None))
    \<and> (chosen_text params = Some (JString t) \<and> trim t \<noteq> []
         \<and> fetch (request_url config ''/embeddings'' True) = Fetched r
         \<and> http_ok r \<and> parse (http_text r) = Some d \<and> truthy d
         \<and> response_embedding d = None
         \<longrightarrow> ?H params = Inr (fallback_vector 0.5, None))
    \<and> ((\<forall>v. chosen_text params = Some v \<longrightarrow> (\<exists>s. v = JString s))
         \<longrightarrow> (\<exists>result. ?H params = Inr result))"
      by (intro conjI)
  qed
  have k1: "is_set (getSetting_nullish env runtime ''AI_GATEWAY_API_KEY'' None)
        \<longrightarrow> (\<exists>config. getAIGatewayConfig env runtime = Inr config)"
    using getAIGatewayConfig_key(1) [of env runtime] by simp
  have k2: "\<not> is_set (getSetting_nullish env runtime ''AI_GATEWAY_API_KEY'' None)
        \<longrightarrow> ?H params = Inl ApiKeyRequired"
    using resilient_without_key by blast
  from keyed k1 k2 fallback_vector_shape [of marker] show ?thesis by (intro conjI) blast+
qed

theorem resilient_embedding_fallbacks_witness:
  "handleTextEmbedding_resilient sample_parse dead_transport empty_env
     (settings_of [(''AI_GATEWAY_API_KEY'', ''key'')]) (ParamsString ''hello'')
   = Inr (fallback_vector 0.4, None)
   \<and> handleTextEmbedding_resilient sample_parse dead_transport empty_env
     (settings_of [(''AI_GATEWAY_API_KEY'', ''key'')]) (ParamsObject None)
   = Inr (fallback_vector 0.2, None)
   \<and> handleTextEmbedding_resilient sample_parse dead_transport empty_env
     (settings_of [(''AI_GATEWAY_BASE_URL'', ''http://localhost'')]) (ParamsString ''hello'')
   = Inl ApiKeyRequired"
proof -
  let ?rt = "settings_of [(''AI_GATEWAY_API_KEY'', ''key'')]"
  let ?bare = "settings_of [(''AI_GATEWAY_BASE_URL'', ''http://localhost'')]"
  obtain config where c: "getAIGatewayConfig empty_env ?rt = Inr config"
    by (simp add: getAIGatewayConfig_def getSetting_nullish_def settings_of_def)
  have t: "chosen_text (ParamsString ''hello'') = Some (JString ''hello'') \<and> trim ''hello'' \<noteq> []"
    by code_simp
  have f: "dead_transport (request_url config ''/embeddings'' True) = FetchThrows ''connect ECONNREFUSED''"
    by (simp add: dead_transport_def)
  have o: "ParamsObject None \<noteq> ParamsNull \<and> chosen_text (ParamsObject None) = None"
    by code_simp
  have nk: "\<not> is_set (getSetting_nullish empty_env ?bare ''AI_GATEWAY_API_KEY'' None)"
    by code_simp
  from resilient_embedding_fallbacks
         [where env = empty_env and runtime = ?rt and config = config and parse = sample_parse
            and fetch = dead_transport and params = "ParamsString ''hello''" and t = "''hello''"
            and message = "''connect ECONNREFUSED''"] c t f
  have a: "handleTextEmbedding_resilient sample_parse dead_transport empty_env ?rt (ParamsString ''hello'')
           = Inr (fallback_vector 0.4, None)"
    by blast
  from resilient_embedding_fallbacks
         [where env = empty_env and runtime = ?rt and config = config and parse = sample_parse
            and fetch = dead_transport and params = "ParamsObject None"] c o
  have b: "handleTextEmbedding_resilient sample_parse dead_transport empty_env ?rt (ParamsObject None)
           = Inr (fallback_vector 0.2, None)"
    by blast
  from resilient_embedding_fallbacks
         [where env = empty_env and runtime = ?bare and parse = sample_parse
            and fetch = dead_transport and params = "ParamsString ''hello''"] nk
  have d: "handleTextEmbedding_resilient sample_parse dead_transport empty_env ?bare (ParamsString ''hello'')
           = Inl ApiKeyRequired"
    by blast
  from a b d show ?thesis by (intro conjI)
qed

text \<open>
  The configuration is read before the input is looked at: without an API key the
  handler throws, even for the \<open>null\<close> input.
\<close>

theorem resilient_embedding_throws_without_key:
  "handleTextEmbedding_resilient sample_parse dead_transport empty_env (settings_of []) ParamsNull
   = Inl ApiKeyRequired"
  by (simp add: handleTextEmbedding_resilient_def getAIGatewayConfig_def getSetting_nullish_def
                settings_of_def empty_env_def)

lemma resilient_text_not_a_string_example:
  "handleTextEmbedding_resilient sample_parse dead_transport empty_env
     (settings_of [(''AI_GATEWAY_API_KEY'', ''key'')]) (ParamsObject (Some (JBool True)))
   = Inl TrimNotAFunction"
  by code_simp

section \<open>Properties of the structured-object parser\<close>

lemma trim_unpadded:
  assumes "s \<noteq> []" and "\<not> is_js_space (hd s)" and "\<not> is_js_space (last s)"
  shows "trim s = s"
proof -
  from assms(1,2) have a: "dropWhile is_js_space s = s"
    by (cases s) auto
  from assms(1,3) have "dropWhile is_js_space (rev s) = rev s"
    by (cases "rev s") (auto simp: last_rev [symmetric])
  with a show ?thesis by (simp add: trim_def)
qed

lemma dropWhile_space_prefix:
  "all_space w \<Longrightarrow> dropWhile is_js_space (w @ s) = dropWhile is_js_space s"
  by (simp add: all_space_def list_all_iff)

lemma trim_padded:
  assumes "all_space w1" and "all_space w2"
  shows "trim (w1 @ t @ w2) = trim t"
proof -
  have w2r: "all_space (rev w2)" using assms(2) by (simp add: all_space_def list_all_iff)
  have a: "dropWhile is_js_space (w1 @ t @ w2) = dropWhile is_js_space (t @ w2)"
    using assms(1) by (rule dropWhile_space_prefix)
  show ?thesis
  proof (cases "dropWhile is_js_space t = []")
    case True
    then have all: "\<forall>x\<in>set t. is_js_space x" by simp
    then have e: "dropWhile is_js_space (t @ w2) = []"
      using assms(2) by (auto simp: all_space_def list_all_iff)
    have l: "trim (w1 @ t @ w2) = []" unfolding trim_def a e by simp
    have r: "trim t = []" unfolding trim_def True by simp
    from l r show ?thesis by simp
  next
    case False
    then obtain x where x: "x \<in> set t" "\<not> is_js_space x"
      by auto
    then have "dropWhile is_js_space (t @ w2) = dropWhile is_js_space t @ w2"
      by simp
    with a have "rev (dropWhile is_js_space (w1 @ t @ w2)) = rev w2 @ rev (dropWhile is_js_space t)"
      by simp
    then show ?thesis
      using dropWhile_space_prefix [OF w2r] by (simp add: trim_def)
  qed
qed

lemma trim_first: "trim s \<noteq> [] \<Longrightarrow> \<not> is_js_space (hd (trim s))"
proof -
  assume ne: "trim s \<noteq> []"
  let ?d = "dropWhile is_js_space s"
  have t: "trim s = rev (dropWhile is_js_space (rev ?d))" by (simp add: trim_def)
  have dne: "?d \<noteq> []"
  proof
    assume z: "?d = []"
    have "trim s = []" unfolding trim_def z by simp
    with ne show False by simp
  qed
  then have hd: "\<not> is_js_space (hd ?d)" by (rule hd_dropWhile)
  have "rev ?d = takeWhile is_js_space (rev ?d) @ dropWhile is_js_space (rev ?d)" by simp
  then have "?d = trim s @ rev (takeWhile is_js_space (rev ?d))"
    by (metis rev_append rev_rev_ident t)
  then have "hd ?d = hd (trim s)" using ne by (metis hd_append2)
  with hd show ?thesis by simp
qed

lemma trim_last: "trim s \<noteq> [] \<Longrightarrow> \<not> is_js_space (last (trim s))"
proof -
  assume ne: "trim s \<noteq> []"
  let ?r = "dropWhile is_js_space (rev (dropWhile is_js_space s))"
  have t: "trim s = rev ?r" by (simp add: trim_def)
  then have rne: "?r \<noteq> []" using ne by auto
  then have "\<not> is_js_space (hd ?r)" by (rule hd_dropWhile)
  then show ?thesis using rne unfolding t by (simp add: last_rev)
qed

lemma trim_idem: "trim (trim s) = trim s"
proof (cases "trim s = []")
  case True
  have "trim [] = []" by (simp add: trim_def)
  then show ?thesis by (simp only: True)
next
  case False
  then show ?thesis by (intro trim_unpadded trim_first trim_last)
qed

lemma trim_part: "\<exists>ps ss. s = ps @ trim s @ ss"
proof -
  let ?d = "dropWhile is_js_space s"
  have "rev ?d = takeWhile is_js_space (rev ?d) @ dropWhile is_js_space (rev ?d)" by simp
  then have "?d = trim s @ rev (takeWhile is_js_space (rev ?d))"
    by (metis rev_append rev_rev_ident trim_def)
  moreover have "s = takeWhile is_js_space s @ ?d" by simp
  ultimately show ?thesis by metis
qed

lemma backtick_not_space: "\<not> is_js_space (CHR ''`'')"
  by (simp add: is_js_space_def)

lemma strip_fences_plain:
  assumes "trim t \<noteq> []" and "hd (trim t) \<noteq> CHR ''`''" and "last (trim t) \<noteq> CHR ''`''"
  shows "strip_fences t = trim t"
proof -
  from assms(1,2) have a: "\<not> startsWith (trim t) ''```json''" "\<not> startsWith (trim t) ''```''"
    by (cases "trim t"; simp add: startsWith_def)+
  from assms(1,3) have b: "\<not> endsWith (trim t) ''```''"
    by (cases "rev (trim t)") (auto simp: endsWith_def last_rev [symmetric])
  show ?thesis using a b by (simp add: strip_fences_def)
qed

lemma strip_fences_fenced:
  assumes "all_space w1" and "all_space w2" and "all_space pad" and "all_space pad'"
    and "trim t \<noteq> []" and "hd (trim t) \<noteq> CHR ''`''"
  shows "strip_fences (pad @ fenced w1 t w2 @ pad') = w1 @ t @ w2"
proof -
  have f: "trim (fenced w1 t w2) = fenced w1 t w2"
    by (rule trim_unpadded) (simp_all add: fenced_def backtick_not_space)
  have c0: "trim (pad @ fenced w1 t w2 @ pad') = fenced w1 t w2"
    using trim_padded [OF assms(3,4)] f by simp
  have tne: "t \<noteq> []" using assms(5) by (auto simp: trim_def)
  have first: "hd (w1 @ t @ w2 @ ''```'') \<noteq> CHR ''`''"
  proof (cases w1)
    case (Cons c w)
    then have "is_js_space c" using assms(1) by (simp add: all_space_def)
    then show ?thesis using Cons backtick_not_space by auto
  next
    case Nil
    show ?thesis
    proof (cases "is_js_space (hd t)")
      case True
      then show ?thesis using Nil tne backtick_not_space by (cases t) auto
    next
      case False
      then have "dropWhile is_js_space t = t" using tne by (cases t) auto
      moreover have "hd (trim t) = hd (dropWhile is_js_space t)"
      proof -
        let ?d = "dropWhile is_js_space t"
        have "rev ?d = takeWhile is_js_space (rev ?d) @ dropWhile is_js_space (rev ?d)" by simp
        then have "?d = trim t @ rev (takeWhile is_js_space (rev ?d))"
          by (metis rev_append rev_rev_ident trim_def)
        then show ?thesis using assms(5) by (metis hd_append2)
      qed
      ultimately show ?thesis using assms(6) Nil tne by (cases t) auto
    qed
  qed
  have ne: "w1 @ t @ w2 @ ''```'' \<noteq> []" by simp
  have c1: "\<not> startsWith (w1 @ t @ w2 @ ''```'') ''```''"
    using first ne by (cases "w1 @ t @ w2 @ ''```''") (simp_all add: startsWith_def)
  have c2: "endsWith (w1 @ t @ w2 @ ''```'') ''```''"
    by (simp add: endsWith_def)
  have s1: "startsWith (fenced w1 t w2) ''```json''" by (simp add: fenced_def startsWith_def)
  have d1: "drop 7 (fenced w1 t w2) = w1 @ t @ w2 @ ''```''" by (simp add: fenced_def)
  have tk: "take (length (w1 @ t @ w2 @ ''```'') - 3) (w1 @ t @ w2 @ ''```'') = w1 @ t @ w2"
    by simp
  show ?thesis
    unfolding strip_fences_def c0 Let_def
    using s1 d1 c1 c2 tk by simp
qed

text \<open>
  C6. A JSON text \<open>t\<close> inside a fence opened by \<open>```json\<close>, with any white space around
  the fence and between the fence and the text, gives the object that \<open>t\<close> alone
  gives. (A JSON text is not blank and neither begins nor ends with a backtick; for
  such a \<open>t\<close> that \<open>JSON.parse\<close> accepts, both calls return the parsed object.) And when
  what is left after the fences are stripped does not parse, \<open>generateObject\<close> throws
  an error whose message ends with that stripped text, which contains the text handed
  to \<open>JSON.parse\<close>.
\<close>

theorem generateObject_fences:
  "(all_space pad \<and> all_space pad' \<and> all_space w1 \<and> all_space w2
      \<and> trim t \<noteq> [] \<and> hd (trim t) \<noteq> CHR ''`'' \<and> last (trim t) \<noteq> CHR ''`''
      \<and> parse (trim t) = Some object
    \<longrightarrow> generateObject parse (Inr (pad @ fenced w1 t w2 @ pad')) = Inr object
      \<and> generateObject parse (Inr t) = Inr object)
   \<and> (parse (trim (strip_fences response)) = None
    \<longrightarrow> generateObject parse (Inr response)
          = Inl (GatewayError (''Failed to parse JSON response: '' @ strip_fences response))
      \<and> sublist (trim (strip_fences response))
           (''Failed to parse JSON response: '' @ strip_fences response))"
proof (intro conjI impI)
  assume h: "all_space pad \<and> all_space pad' \<and> all_space w1 \<and> all_space w2
      \<and> trim t \<noteq> [] \<and> hd (trim t) \<noteq> CHR ''`'' \<and> last (trim t) \<noteq> CHR ''`''
      \<and> parse (trim t) = Some object"
  then have sf: "strip_fences (pad @ fenced w1 t w2 @ pad') = w1 @ t @ w2"
    by (intro strip_fences_fenced) simp_all
  have "trim (w1 @ t @ w2) = trim t" using h by (intro trim_padded) simp_all
  then show "generateObject parse (Inr (pad @ fenced w1 t w2 @ pad')) = Inr object"
    using h sf by (simp add: generateObject_def)
  have "strip_fences t = trim t" using h by (intro strip_fences_plain) simp_all
  then show "generateObject parse (Inr t) = Inr object"
    using h by (simp add: generateObject_def trim_idem)
next
  assume "parse (trim (strip_fences response)) = None"
  then show "generateObject parse (Inr response)
          = Inl (GatewayError (''Failed to parse JSON response: '' @ strip_fences response))"
    by (simp add: generateObject_def)
next
  obtain ps ss where "strip_fences response = ps @ trim (strip_fences response) @ ss"
    using trim_part by blast
  then have "''Failed to parse JSON response: '' @ strip_fences response
             = (''Failed to parse JSON response: '' @ ps) @ trim (strip_fences response) @ ss"
    by simp
  then show "sublist (trim (strip_fences response))
           (''Failed to parse JSON response: '' @ strip_fences response)"
    unfolding sublist_def by blast
qed

theorem generateObject_fences_witness:
  "generateObject sample_parse
     (Inr (fenced [CHR 0x0A] (delta_text ''Hel'') [CHR 0x0A] @ [CHR 0x0A])) = Inr (delta_json ''Hel'')
   \<and> generateObject sample_parse (Inr (delta_text ''Hel'')) = Inr (delta_json ''Hel'')
   \<and> generateObject sample_parse (Inr (fenced [CHR 0x0A] ''{broken'' [CHR 0x0A]))
       = Inl (GatewayError (''Failed to parse JSON response: '' @ [CHR 0x0A] @ ''{broken'' @ [CHR 0x0A]))"
proof -
  let ?t = "delta_text ''Hel''"
  let ?r = "fenced [CHR 0x0A] ''{broken'' [CHR 0x0A]"
  have sp: "all_space [] \<and> all_space [CHR 0x0A]" by code_simp
  have t: "trim ?t \<noteq> [] \<and> hd (trim ?t) \<noteq> CHR ''`'' \<and> last (trim ?t) \<noteq> CHR ''`''
           \<and> sample_parse (trim ?t) = Some (delta_json ''Hel'')"
    by code_simp
  have b: "sample_parse (trim (strip_fences ?r)) = None" by code_simp
  have s: "strip_fences ?r = [CHR 0x0A] @ ''{broken'' @ [CHR 0x0A]" by code_simp
  from generateObject_fences [of "[]" "[CHR 0x0A]" "[CHR 0x0A]" "[CHR 0x0A]" ?t sample_parse
          "delta_json ''Hel''" ?r] sp t b
  have "generateObject sample_parse (Inr ([] @ fenced [CHR 0x0A] ?t [CHR 0x0A] @ [CHR 0x0A]))
          = Inr (delta_json ''Hel'')"
    and "generateObject sample_parse (Inr ?t) = Inr (delta_json ''Hel'')"
    and "generateObject sample_parse (Inr ?r)
          = Inl (GatewayError (''Failed to parse JSON response: '' @ strip_fences ?r))"
    by blast+
  then show ?thesis unfolding s by simp
qed

text \<open>
  Only the tag \<open>json\<close>, in lower case, is taken off with the fence: under another tag
  the three backticks go and the tag stays, so the same JSON text no longer parses.
\<close>

theorem generateObject_other_tag:
  "generateObject sample_parse
     (Inr (''```JSON'' @ [CHR 0x0A] @ delta_text ''Hel'' @ [CHR 0x0A] @ ''```''))
   = Inl (GatewayError (''Failed to parse JSON response: JSON'' @ [CHR 0x0A] @ delta_text ''Hel''
            @ [CHR 0x0A]))
   \<and> generateObject sample_parse (Inr (delta_text ''Hel'')) = Inr (delta_json ''Hel'')"
  by code_simp

lemma generateObject_bare_fence_example:
  "generateObject sample_parse
     (Inr (''```'' @ [CHR 0x0A] @ delta_text ''Hel'' @ [CHR 0x0A] @ ''```'')) = Inr (delta_json ''Hel'')"
  by code_simp

lemma generateObject_passes_errors: "generateObject parse (Inl e) = Inl e"
  by (simp add: generateObject_def)

section \<open>Properties of the embedding request\<close>

lemma truncate_text_long:
  "length t > M * 4 \<Longrightarrow> truncate_text M t = take (M * 4) t \<and> length (truncate_text M t) = M * 4"
  by (simp add: truncate_text_def)

lemma truncate_text_short: "length t \<le> M * 4 \<Longrightarrow> truncate_text M t = t"
  by (simp add: truncate_text_def)

text \<open>
  C7. With a configuration that resolves, the handler calls \<open>createEmbedding\<close> once, and
  the text of that call is the input text itself when its length is at most
  \<open>MAX_EMBEDDING_TOKENS * 4\<close>, and otherwise its first \<open>MAX_EMBEDDING_TOKENS * 4\<close> code
  units, a text of exactly that length. The input text is the string, the \<open>text\<close> of
  the object, or \<open>test\<close> for \<open>null\<close>.
\<close>

theorem handleTextEmbedding_truncates:
  assumes "buildConfig env runtime = Inr config"
    and "params = InputString t \<or> params = InputObject (Some t)
         \<or> params = InputNull \<and> t = ''test''"
  shows "handleTextEmbedding M createEmbedding env runtime params
         = (case createEmbedding config
                  \<lparr> ep_text = (if length t > M * 4 then take (M * 4) t else t),
                    ep_model = getEmbeddingModel env runtime,
                    ep_dimensions = getEmbeddingDimensions env runtime \<rparr> of
              Inl e \<Rightarrow> Inl (Transport e)
            | Inr v \<Rightarrow> Inr v)
       \<and> (length t > M * 4 \<longrightarrow> length (take (M * 4) t) = M * 4)"
  using assms by (auto simp: handleTextEmbedding_def truncate_text_def)

theorem handleTextEmbedding_truncates_witness:
  "handleTextEmbedding 2 count_embedding empty_env
     (Some (settings_of [(''AI_GATEWAY_API_KEY'', ''key'')])) (InputString ''0123456789'')
   = Inr [8]
   \<and> handleTextEmbedding 2 count_embedding empty_env
     (Some (settings_of [(''AI_GATEWAY_API_KEY'', ''key'')])) (InputObject (Some ''0123456''))
   = Inr [7]"
proof -
  let ?rt = "Some (settings_of [(''AI_GATEWAY_API_KEY'', ''key'')])"
  obtain config where c: "buildConfig empty_env ?rt = Inr config"
    by (simp add: buildConfig_def getApiKey_def getSetting_def or_else_def settings_of_def)
  have p1: "InputString ''0123456789'' = InputString ''0123456789''
            \<or> InputString ''0123456789'' = InputObject (Some ''0123456789'')
            \<or> InputString ''0123456789'' = InputNull \<and> ''0123456789'' = ''test''" by simp
  have p2: "InputObject (Some ''0123456'') = InputString ''0123456''
            \<or> InputObject (Some ''0123456'') = InputObject (Some ''0123456'')
            \<or> InputObject (Some ''0123456'') = InputNull \<and> ''0123456'' = ''test''" by simp
  from handleTextEmbedding_truncates [OF c p1, of 2 count_embedding]
  have a: "handleTextEmbedding 2 count_embedding empty_env ?rt (InputString ''0123456789'') = Inr [8]"
    by (simp add: count_embedding_def)
  from handleTextEmbedding_truncates [OF c p2, of 2 count_embedding]
  have b: "handleTextEmbedding 2 count_embedding empty_env ?rt (InputObject (Some ''0123456'')) = Inr [7]"
    by (simp add: count_embedding_def)
  from a b show ?thesis by (rule conjI)
qed

lemma handleTextEmbedding_without_key:
  "handleTextEmbedding 2 count_embedding empty_env (Some (settings_of [])) (InputString ''abc'')
   = Inl (Config MissingApiKey)"
  by code_simp

end
